theory Spec2Isabelle
  imports Main "HOL-Library.Sublist"
begin

section \<open>Python strings and slices\<close>

text \<open>
  A Python \<open>str\<close> is modelled as a \<open>string\<close>, one \<open>char\<close> per character, so
  \<open>length\<close> is \<open>len\<close>; a \<open>char\<close> stands for a code point below 256. \<open>is_space\<close> is
  \<open>str.isspace\<close> and \<open>is_digit\<close> is the regular expression class \<open>\d\<close> on these code
  points. \<open>str_lower\<close> and \<open>str_upper\<close> change the letters A-Z and a-z only: the
  converters compare their results with ASCII strings only, and no other code point
  below 256 has an ASCII letter as its lower or upper case.

  \<open>slice_to xs k\<close> is the slice \<open>xs[:k]\<close>: a negative bound counts from the end and
  a bound beyond either end is clipped.
\<close>

definition slice_to :: "'a list \<Rightarrow> int \<Rightarrow> 'a list" where
  "slice_to xs k =
     (if k < 0 then take (nat (int (length xs) + k)) xs else take (nat k) xs)"

definition str_lower_char :: "char \<Rightarrow> char" where
  "str_lower_char c =
     (case map_of (zip ''ABCDEFGHIJKLMNOPQRSTUVWXYZ'' ''abcdefghijklmnopqrstuvwxyz'') c of
        None \<Rightarrow> c | Some d \<Rightarrow> d)"

definition str_upper_char :: "char \<Rightarrow> char" where
  "str_upper_char c =
     (case map_of (zip ''abcdefghijklmnopqrstuvwxyz'' ''ABCDEFGHIJKLMNOPQRSTUVWXYZ'') c of
        None \<Rightarrow> c | Some d \<Rightarrow> d)"

definition str_lower :: "string \<Rightarrow> string" where
  "str_lower s = map str_lower_char s"

definition str_upper :: "string \<Rightarrow> string" where
  "str_upper s = map str_upper_char s"

text \<open>
  The characters that \<open>str.isspace\<close> accepts and \<open>str.strip()\<close> removes, among the code
  points below 256: tab, line feed, VT, FF, CR, the separators FS to US, space, NEL
  (U+0085) and the no-break space (U+00A0).
\<close>

definition whitespace :: string where
  "whitespace =
     [CHR 0x09, CHR 0x0A, CHR 0x0B, CHR 0x0C, CHR 0x0D,
      CHR 0x1C, CHR 0x1D, CHR 0x1E, CHR 0x1F, CHR 0x20, CHR 0x85, CHR 0xA0]"

definition is_space :: "char \<Rightarrow> bool" where
  "is_space c = (c \<in> set whitespace)"

definition is_digit :: "char \<Rightarrow> bool" where
  "is_digit c = (c \<in> set ''0123456789'')"

text \<open>\<open>s.strip(chars)\<close> and \<open>s.strip()\<close>: drop from both ends while the character is in the set.\<close>

definition str_strip_chars :: "string \<Rightarrow> string \<Rightarrow> string" where
  "str_strip_chars chars s =
     rev (dropWhile (\<lambda>c. c \<in> set chars) (rev (dropWhile (\<lambda>c. c \<in> set chars) s)))"

definition str_strip :: "string \<Rightarrow> string" where
  "str_strip s = rev (dropWhile is_space (rev (dropWhile is_space s)))"

text \<open>\<open>sub in s\<close>: \<open>sub\<close> occurs in \<open>s\<close> as a contiguous run.\<close>

fun str_contains :: "string \<Rightarrow> string \<Rightarrow> bool" where
  "str_contains sub [] = (sub = [])"
| "str_contains sub (c # cs) = (prefix sub (c # cs) \<or> str_contains sub cs)"

text \<open>
  \<open>s.split(sep)\<close> for a non-empty separator: the text is scanned from the left, each
  occurrence of \<open>sep\<close> ends a piece and the scan resumes after it (occurrences never
  overlap). \<open>split_from sep cur s\<close> is the scan with \<open>cur\<close> the piece collected so far.
\<close>

fun split_from :: "string \<Rightarrow> string \<Rightarrow> string \<Rightarrow> string list" where
  "split_from sep cur [] = [cur]"
| "split_from sep cur (c # cs) =
     (if sep \<noteq> [] \<and> prefix sep (c # cs)
      then cur # split_from sep [] (drop (length sep - 1) cs)
      else split_from sep (cur @ [c]) cs)"

definition str_split :: "string \<Rightarrow> string \<Rightarrow> string list" where
  "str_split sep s = split_from sep [] s"

text \<open>\<open>d.get(key, default)\<close>, with \<open>d.get(key)\<close> given as an option.\<close>

definition dict_get :: "'a option \<Rightarrow> 'a \<Rightarrow> 'a" where
  "dict_get v d = (case v of None \<Rightarrow> d | Some x \<Rightarrow> x)"

datatype error = KeyError string

section \<open>The data model\<close>

text \<open>
  A source item is a JSON object; a field is \<open>None\<close> when its key is absent and
  otherwise has the shape of the data model (a string, a list of strings, an integer,
  a nested object). Fields are named after their keys: \<open>i_\<close> for the item,
  \<open>v_\<close> for a video entry, \<open>c_\<close> for the content object, \<open>r_\<close> for the rating
  object. Keys the converters never read are left out. For \<open>c_duration\<close>, \<open>None\<close>
  also stands for a JSON \<open>null\<close>, which both converters treat as an absent key.
\<close>

record src_video =
  v_url :: "string option"
  v_quality :: "string option"

record src_content =
  c_videos :: "src_video list option"
  c_duration :: "int option"

record src_rating =
  r_ratingSource :: "string option"
  r_rating :: "string option"

record item =
  i_id :: "string option"
  i_title :: "string option"
  i_shortDescription :: "string option"
  i_longDescription :: "string option"
  i_releaseDate :: "string option"
  i_genres :: "string list option"
  i_tags :: "string list option"
  i_thumbnail :: "string option"
  i_rating :: "src_rating option"
  i_content :: "src_content option"

text \<open>
  The asset, with \<open>a_\<close> before each key. \<open>a_playOptions\<close> is \<open>content.playOptions\<close>.
  A key that a converter may leave out (\<open>longDescriptions\<close>, \<open>tags\<close>, and
  \<open>languages\<close> of a text entry) is an option.
\<close>

record localized =
  l_value :: string
  l_languages :: "string list option"

record advisory =
  ar_source :: string
  ar_value :: string

record image =
  im_type :: string
  im_url :: string

record play_option =
  po_license :: string
  po_quality :: string
  po_playId :: string

record asset =
  a_id :: string
  a_type :: string
  a_titles :: "localized list"
  a_shortDescriptions :: "localized list"
  a_longDescriptions :: "localized list option"
  a_releaseDate :: string
  a_genres :: "string list"
  a_tags :: "string list option"
  a_advisoryRatings :: "advisory list"
  a_images :: "image list"
  a_durationInSeconds :: int
  a_playOptions :: "play_option list"

text \<open>The empty dictionary \<open>{}\<close> that \<open>item.get("rating", {})\<close> and \<open>item.get("content", {})\<close> fall back to.\<close>

definition empty_rating :: src_rating where
  "empty_rating = \<lparr>r_ratingSource = None, r_rating = None\<rparr>"

definition empty_content :: src_content where
  "empty_content = \<lparr>c_videos = None, c_duration = None\<rparr>"

section \<open>The genre table\<close>

text \<open>
  \<open>VALID_GENRES\<close>, the set literal of both files (the two copies list the same 227
  strings in the same order), as the list of its elements.
\<close>

definition VALID_GENRES :: "string list" where
  "VALID_GENRES = [
   ''action'', ''action sports'', ''adventure'', ''aerobics'', ''agriculture'',
    ''animals'', ''animated'', ''anime'', ''anthology'', ''archery'', ''arm wrestling'',
    ''art'', ''arts/crafts'', ''artistic gymnastics'', ''artistic swimming'',
    ''athletics'', ''auction'', ''auto'', ''auto racing'', ''aviation'', ''awards'',
    ''badminton'', ''ballet'', ''baseball'', ''basketball'', ''3x3 basketball'',
    ''beach soccer'', ''beach volleyball'', ''biathlon'', ''bicycle'',
    ''bicycle racing'', ''billiards'', ''biography'', ''blackjack'', ''bmx racing'',
    ''boat'', ''boat racing'', ''bobsled'', ''bodybuilding'', ''bowling'', ''boxing'',
    ''bullfighting'', ''bus./financial'', ''canoe'', ''card games'', ''ceremony'',
    ''cheerleading'', ''children'', ''children-music'', ''children-special'',
    ''children-talk'', ''collectibles'', ''comedy'', ''comedy drama'', ''community'',
    ''computers'', ''canoe/kayak'', ''consumer'', ''cooking'', ''cricket'', ''crime'',
    ''crime drama'', ''curling'', ''cycling'', ''dance'', ''dark comedy'', ''darts'',
    ''debate'', ''diving'', ''docudrama'', ''documentary'', ''dog racing'',
    ''dog show'', ''dog sled'', ''drag racing'', ''drama'', ''educational'',
    ''entertainment'', ''environment'', ''equestrian'', ''erotic'', ''event'',
    ''exercise'', ''fantasy'', ''faith'', ''fashion'', ''fencing'', ''field hockey'',
    ''figure skating'', ''fishing'', ''football'', ''food'', ''fundraiser'',
    ''gaelic football'', ''game show'', ''gaming'', ''gay/lesbian'', ''golf'',
    ''gymnastics'', ''handball'', ''health'', ''historical drama'', ''history'',
    ''hockey'', ''holiday'', ''holiday music'', ''holiday music special'',
    ''holiday special'', ''holiday-children'', ''holiday-children special'',
    ''home improvement'', ''horror'', ''horse'', ''house/garden'', ''how-to'',
    ''hunting'', ''hurling'', ''hydroplane racing'', ''indoor soccer'', ''interview'',
    ''intl soccer'', ''judo'', ''karate'', ''kayaking'', ''lacrosse'', ''law'',
    ''live'', ''luge'', ''martial arts'', ''medical'', ''military'', ''miniseries'',
    ''mixed martial arts'', ''modern pentathlon'', ''motorcycle'',
    ''motorcycle racing'', ''motorsports'', ''mountain biking'', ''music'',
    ''music special'', ''music talk'', ''musical'', ''musical comedy'', ''mystery'',
    ''nature'', ''news'', ''newsmagazine'', ''olympics'', ''opera'', ''outdoors'',
    ''parade'', ''paranormal'', ''parenting'', ''performing arts'', ''playoff sports'',
    ''poker'', ''politics'', ''polo'', ''pool'', ''pro wrestling'', ''public affairs'',
    ''racquet'', ''reality'', ''religious'', ''ringuette'', ''road cycling'', ''rodeo'',
    ''roller derby'', ''romance'', ''romantic comedy'', ''rowing'', ''rugby'',
    ''running'', ''rhythmic gymnastics'', ''sailing'', ''science'', ''science fiction'',
    ''self improvement'', ''shooting'', ''shopping'', ''sitcom'', ''skateboarding'',
    ''skating'', ''skeleton'', ''skiing'', ''snooker'', ''snowboarding'',
    ''snowmobile'', ''soap'', ''soap special'', ''soap talk'', ''soccer'', ''softball'',
    ''special'', ''speed skating'', ''sport climbing'', ''sports'', ''sports talk'',
    ''squash'', ''standup'', ''sumo wrestling'', ''surfing'', ''suspense'',
    ''swimming'', ''table tennis'', ''taekwondo'', ''talk'', ''technology'', ''tennis'',
    ''theater'', ''thriller'', ''track/field'', ''track cycling'', ''travel'',
    ''trampoline'', ''triathlon'', ''variety'', ''volleyball'', ''war'', ''water polo'',
    ''water skiing'', ''watersports'', ''weather'', ''weightlifting'', ''western'',
    ''wrestling'', ''yacht racing'']"

section \<open>convert\_to\_search\_feed.py\<close>

subsection \<open>truncate\<close>

text \<open>
  \<^verbatim>\<open>
  def truncate(text, max_len):
      if not text:
          return text
      if len(text) <= max_len:
          return text
      return text[:max_len - 3] + "..."
  \<close>
\<close>

definition truncate :: "string \<Rightarrow> int \<Rightarrow> string" where
  "truncate text max_len =
     (if text = [] then text
      else if int (length text) \<le> max_len then text
      else slice_to text (max_len - 3) @ ''...'')"


subsection \<open>validate\_genres\<close>

text \<open>
  \<^verbatim>\<open>
  def validate_genres(genres):
      valid = [g for g in genres if g.lower() in VALID_GENRES]
      if not valid:
          return ["special"]
      return [g.lower() for g in valid]
  \<close>
\<close>

definition validate_genres :: "string list \<Rightarrow> string list" where
  "validate_genres genres =
     (let valid = filter (\<lambda>g. str_lower g \<in> set VALID_GENRES) genres
      in if valid = [] then [''special''] else map str_lower valid)"

subsection \<open>convert\_item\<close>

text \<open>The two dictionaries local to \<open>convert_item\<close>.\<close>

definition source_map :: "string \<rightharpoonup> string" where
  "source_map = map_of [(''USA_TV'', ''USA_PR''), (''MPAA'', ''MPAA''), (''USA_PR'', ''USA_PR'')]"

definition quality_map :: "string \<rightharpoonup> string" where
  "quality_map =
     map_of [(''HD'', ''hd''), (''SD'', ''sd''), (''UHD'', ''uhd''), (''FHD'', ''fhd'')]"

text \<open>
  The rating block. \<open>if rating:\<close> tests that the dictionary has a key.
  \<^verbatim>\<open>
  rating = item.get("rating", {})
  if rating:
      source = source_map.get(rating.get("ratingSource", "USA_TV"), "USA_PR")
      value = rating.get("rating", "TV-G")
      asset["advisoryRatings"] = [{"source": source, "value": value}]
  else:
      asset["advisoryRatings"] = [{"source": "USA_PR", "value": "TV-G"}]
  \<close>
\<close>

definition convert_rating :: "item \<Rightarrow> advisory list" where
  "convert_rating item =
     (let rating = dict_get (i_rating item) empty_rating
      in if r_ratingSource rating \<noteq> None \<or> r_rating rating \<noteq> None
         then [\<lparr>ar_source =
                   dict_get (source_map (dict_get (r_ratingSource rating) ''USA_TV'')) ''USA_PR'',
                 ar_value = dict_get (r_rating rating) ''TV-G''\<rparr>]
         else [\<lparr>ar_source = ''USA_PR'', ar_value = ''TV-G''\<rparr>])"

text \<open>
  The body of the loop over \<open>content["videos"]\<close>, for one \<open>vid\<close>.
  \<^verbatim>\<open>
  play_option = {"license": "free",
                 "quality": quality_map.get(vid.get("quality", "HD").upper(), "hd")}
  url = vid.get("url", "")
  if "/play/" in url:
      play_id = url.split("/play/")[-1]
      play_option["playId"] = play_id
  else:
      play_option["playId"] = item["id"]
  \<close>
\<close>

definition play_option_of :: "string \<Rightarrow> src_video \<Rightarrow> play_option" where
  "play_option_of item_id vid =
     (let url = dict_get (v_url vid) []
      in \<lparr>po_license = ''free'',
          po_quality = dict_get (quality_map (str_upper (dict_get (v_quality vid) ''HD''))) ''hd'',
          po_playId =
            (if str_contains ''/play/'' url then last (str_split ''/play/'' url)
             else item_id)\<rparr>)"

text \<open>
  The tags block; the result is \<open>None\<close> when the asset gets no \<open>tags\<close> key.
  \<^verbatim>\<open>
  if item.get("tags"):
      clean_tags = [t.strip('"').strip()[:20] for t in item["tags"]
                    if t.strip('"').strip()]
      if clean_tags:
          asset["tags"] = clean_tags
  \<close>
\<close>

definition clean_tag :: "string \<Rightarrow> string" where
  "clean_tag t = str_strip (str_strip_chars [CHR 0x22] t)"

definition convert_tags :: "item \<Rightarrow> string list option" where
  "convert_tags item =
     (let clean_tags =
            map (\<lambda>t. slice_to (clean_tag t) 20)
              (filter (\<lambda>t. clean_tag t \<noteq> []) (dict_get (i_tags item) []))
      in if clean_tags \<noteq> [] then Some clean_tags else None)"

text \<open>
  \<open>convert_item(item, item_type)\<close>. \<open>item["id"]\<close> raises \<open>KeyError\<close> when the key is
  absent; nothing before it in the function can raise. The loop over the videos
  appends one play option per entry, so it is a \<open>map\<close>; \<open>if content.get("videos")\<close>
  skips it for an absent or empty list, where the \<open>map\<close> is empty as well.
\<close>

definition convert_item :: "item \<Rightarrow> string \<Rightarrow> error + asset" where
  "convert_item item item_type =
     (let title = truncate (dict_get (i_title item) ''Untitled'') 200;
          short_desc = truncate (dict_get (i_shortDescription item) title) 200;
          long_desc = truncate (dict_get (i_longDescription item) []) 500
      in case i_id item of
           None \<Rightarrow> Inl (KeyError ''id'')
         | Some item_id \<Rightarrow>
             (let content = dict_get (i_content item) empty_content;
                  play_options = map (play_option_of item_id) (dict_get (c_videos content) [])
              in Inr \<lparr>
                   a_id = slice_to item_id 50,
                   a_type = item_type,
                   a_titles = [\<lparr>l_value = title, l_languages = Some [''en'']\<rparr>],
                   a_shortDescriptions = [\<lparr>l_value = short_desc, l_languages = Some [''en'']\<rparr>],
                   a_longDescriptions =
                     (if long_desc \<noteq> []
                      then Some [\<lparr>l_value = long_desc, l_languages = Some [''en'']\<rparr>]
                      else None),
                   a_releaseDate = dict_get (i_releaseDate item) ''2025-01-01'',
                   a_genres = validate_genres (dict_get (i_genres item) [''special'']),
                   a_tags = convert_tags item,
                   a_advisoryRatings = convert_rating item,
                   a_images =
                     (if dict_get (i_thumbnail item) [] \<noteq> []
                      then [\<lparr>im_type = ''main'', im_url = dict_get (i_thumbnail item) []\<rparr>]
                      else []),
                   a_durationInSeconds =
                     (if dict_get (c_duration content) 0 \<noteq> 0
                      then dict_get (c_duration content) 0
                      else 60),
                   a_playOptions =
                     (if play_options = []
                      then [\<lparr>po_license = ''free'', po_quality = ''hd'', po_playId = item_id\<rparr>]
                      else play_options)\<rparr>))"

section \<open>convert\_to\_search\_feed\_v2.py\<close>

subsection \<open>classify\_content\<close>

text \<open>\<open>sep.join(xs)\<close>.\<close>

fun str_join :: "string \<Rightarrow> string list \<Rightarrow> string" where
  "str_join sep [] = []"
| "str_join sep [x] = x"
| "str_join sep (x # y # ys) = x @ sep @ str_join sep (y # ys)"

text \<open>The keyword lists of \<open>classify_content\<close>, in the order of its tests.\<close>

definition church_words :: "string list" where
  "church_words =
     [''church'', ''sermon'', ''bible'', ''pastor'', ''worship'', ''prayer'',
      ''gospel'', ''praise'', ''ministry'', ''missionary'', ''baptist'',
      ''pastoral'', ''deacon'', ''sunday'', ''galilee'', ''scripture'',
      ''christmas eve'', ''easter'', ''revival'']"

definition music_words :: "string list" where
  "music_words = [''music'', ''song'', ''concert'', ''singing'', ''choir'', ''hymn'']"

definition holiday_words :: "string list" where
  "holiday_words = [''christmas'', ''holiday'', ''thanksgiving'', ''easter'']"

definition talk_words :: "string list" where
  "talk_words = [''news'', ''interview'', ''talk'', ''discussion'']"

definition community_words :: "string list" where
  "community_words = [''community'', ''neighborhood'', ''local'', ''event'']"

definition educational_words :: "string list" where
  "educational_words = [''education'', ''learn'', ''class'', ''lesson'', ''tutorial'']"

text \<open>
  \<^verbatim>\<open>
  def classify_content(title, description, tags, duration_secs):
      text = f"{title} {description} {' '.join(tags)}".lower()
      if any(w in text for w in [...church words...]):
          return ["faith"]
      if any(w in text for w in [...music words...]):
          return ["music"]
      ...
      return ["faith"]
  \<close>
\<close>

definition classify_content :: "string \<Rightarrow> string \<Rightarrow> string list \<Rightarrow> int \<Rightarrow> string list" where
  "classify_content title description tags duration_secs =
     (let text = str_lower (title @ '' '' @ description @ '' '' @ str_join '' '' tags)
      in if list_ex (\<lambda>w. str_contains w text) church_words then [''faith'']
         else if list_ex (\<lambda>w. str_contains w text) music_words then [''music'']
         else if list_ex (\<lambda>w. str_contains w text) holiday_words then [''holiday'']
         else if list_ex (\<lambda>w. str_contains w text) talk_words then [''talk'']
         else if list_ex (\<lambda>w. str_contains w text) community_words then [''community'']
         else if list_ex (\<lambda>w. str_contains w text) educational_words then [''educational'']
         else [''faith''])"

subsection \<open>convert\_item\<close>

text \<open>
  \<open>re.search(r'/play/(\d+)', video_url)\<close>: the leftmost place where \<open>/play/\<close> is followed
  by a digit; group 1 is the whole run of digits there. \<open>None\<close> when there is no match.
\<close>

fun search_play_digits :: "string \<Rightarrow> string option" where
  "search_play_digits [] = None"
| "search_play_digits (c # cs) =
     (if prefix ''/play/'' (c # cs) \<and> takeWhile is_digit (drop 5 cs) \<noteq> []
      then Some (takeWhile is_digit (drop 5 cs))
      else search_play_digits cs)"

text \<open>\<open>x or y\<close> on strings: \<open>x\<close> unless it is empty.\<close>

definition str_or :: "string \<Rightarrow> string \<Rightarrow> string" where
  "str_or x y = (if x \<noteq> [] then x else y)"

text \<open>
  \<open>convert_item(item, item_type)\<close> of the second file. \<open>play_id = item["id"]\<close> is its
  first statement and raises \<open>KeyError\<close> when the key is absent.
  \<^verbatim>\<open>
  play_id = item["id"]
  if "content" in item and "videos" in item["content"] and item["content"]["videos"]:
      video_url = item["content"]["videos"][0].get("url", "")
      match = re.search(r'/play/(\d+)', video_url)
      if match:
          play_id = match.group(1)
  duration = item.get("content", {}).get("duration", 0)
  if duration is None or duration == 0:
      duration = 1
  if item_type == "shortform":
      asset_type = "shortform"
  else:
      if duration > 900:
          asset_type = "movie"
      else:
          asset_type = "shortform"
  title = (item.get("title", "") or "Untitled")[:200]
  short_desc = (item.get("shortDescription", "") or title)[:200]
  long_desc = (item.get("longDescription", "") or short_desc)[:500]
  genres = classify_content(title, short_desc, item.get("tags", []), duration)
  tags = [t[:20] for t in item.get("tags", []) if t and len(t.strip()) > 0]
  \<close>
\<close>

definition convert_item_v2 :: "item \<Rightarrow> string \<Rightarrow> error + asset" where
  "convert_item_v2 item item_type =
     (case i_id item of
        None \<Rightarrow> Inl (KeyError ''id'')
      | Some item_id \<Rightarrow>
          (let content = dict_get (i_content item) empty_content;
               play_id =
                 (case dict_get (c_videos content) [] of
                    [] \<Rightarrow> item_id
                  | vid # _ \<Rightarrow>
                      (case search_play_digits (dict_get (v_url vid) []) of
                         None \<Rightarrow> item_id
                       | Some digits \<Rightarrow> digits));
               duration =
                 (if dict_get (c_duration content) 0 = 0 then 1
                  else dict_get (c_duration content) 0);
               asset_type =
                 (if item_type = ''shortform'' then ''shortform''
                  else if duration > 900 then ''movie'' else ''shortform'');
               title = slice_to (str_or (dict_get (i_title item) []) ''Untitled'') 200;
               short_desc = slice_to (str_or (dict_get (i_shortDescription item) []) title) 200;
               long_desc = slice_to (str_or (dict_get (i_longDescription item) []) short_desc) 500;
               genres = classify_content title short_desc (dict_get (i_tags item) []) duration;
               tags =
                 map (\<lambda>t. slice_to t 20)
                   (filter (\<lambda>t. t \<noteq> [] \<and> length (str_strip t) > 0)
                      (dict_get (i_tags item) []));
               thumbnail = dict_get (i_thumbnail item) []
           in Inr \<lparr>
                a_id = item_id,
                a_type = asset_type,
                a_titles = [\<lparr>l_value = title, l_languages = None\<rparr>],
                a_shortDescriptions = [\<lparr>l_value = short_desc, l_languages = None\<rparr>],
                a_longDescriptions = Some [\<lparr>l_value = long_desc, l_languages = None\<rparr>],
                a_releaseDate = dict_get (i_releaseDate item) ''2025-01-01'',
                a_genres = genres,
                a_tags = Some (if tags \<noteq> [] then tags else [''faith'']),
                a_advisoryRatings = [\<lparr>ar_source = ''USA_PR'', ar_value = ''TV-G''\<rparr>],
                a_images =
                  (if thumbnail \<noteq> [] then [\<lparr>im_type = ''main'', im_url = thumbnail\<rparr>]
                   else []),
                a_durationInSeconds = duration,
                a_playOptions =
                  [\<lparr>po_license = ''free'', po_quality = ''hd'', po_playId = play_id\<rparr>]\<rparr>))"

section \<open>Example items\<close>

text \<open>Scenario B of the specification: an item with an id and nothing else.\<close>

definition item_B :: item where
  "item_B = \<lparr>i_id = Some ''abc123'', i_title = None, i_shortDescription = None,
     i_longDescription = None, i_releaseDate = None, i_genres = None, i_tags = None,
     i_thumbnail = None, i_rating = None, i_content = None\<rparr>"

text \<open>Scenario D: no id.\<close>

definition item_D :: item where
  "item_D = item_B\<lparr>i_id := None, i_title := Some ''No id''\<rparr>"

text \<open>An item with every field supplied and two videos.\<close>

definition videos_A :: "src_video list" where
  "videos_A =
     [\<lparr>v_url = Some ''https://x/play/999'', v_quality = Some ''Sd''\<rparr>,
      \<lparr>v_url = Some ''https://x/stream/7'', v_quality = Some ''4K''\<rparr>]"

definition item_A :: item where
  "item_A = \<lparr>i_id = Some ''abc123'', i_title = Some ''A title'',
     i_shortDescription = Some ''Short'', i_longDescription = Some ''Long'',
     i_releaseDate = Some ''2020-05-17'', i_genres = Some [''Drama'', ''Bogus'', ''SCIENCE fiction''],
     i_tags = Some [''one'', ''two''], i_thumbnail = Some ''https://x/t.jpg'',
     i_rating = Some \<lparr>r_ratingSource = Some ''MPAA'', r_rating = Some ''PG''\<rparr>,
     i_content = Some \<lparr>c_videos = Some videos_A, c_duration = Some 1200\<rparr>\<rparr>"

text \<open>An item whose duration is negative, and one whose id has 51 characters.\<close>

definition item_negative :: item where
  "item_negative = item_B\<lparr>i_content := Some \<lparr>c_videos = None, c_duration = Some (- 5)\<rparr>\<rparr>"

definition item_long_id :: item where
  "item_long_id =
     item_B\<lparr>i_id := Some ''123456789012345678901234567890123456789012345678901''\<rparr>"

text \<open>
  Scenario C: the tag list \<open>[' "sports" ', '', '  "a-very-long-tag-name-exceeding-twenty" ']\<close>.
  \<open>CHR 0x22\<close> is the double quote.
\<close>

definition tags_C :: "string list" where
  "tags_C =
     [[CHR 0x20, CHR 0x22] @ ''sports'' @ [CHR 0x22, CHR 0x20],
      [],
      [CHR 0x20, CHR 0x20, CHR 0x22] @ ''a-very-long-tag-name-exceeding-twenty'' @
        [CHR 0x22, CHR 0x20]]"

definition item_C :: item where
  "item_C = item_B\<lparr>i_tags := Some tags_C\<rparr>"


text \<open>
  A tag list whose quotes are the outermost characters:
  \<open>['" sports "', '', '"a-very-long-tag-name-exceeding-twenty"']\<close>.
\<close>

definition tag_sports :: string where
  "tag_sports = [CHR 0x22, CHR 0x20] @ ''sports'' @ [CHR 0x20, CHR 0x22]"

definition tag_long :: string where
  "tag_long = [CHR 0x22] @ ''a-very-long-tag-name-exceeding-twenty'' @ [CHR 0x22]"

definition tags_Q :: "string list" where
  "tags_Q = [tag_sports, [], tag_long]"

definition item_Q :: item where
  "item_Q = item_B\<lparr>i_tags := Some tags_Q\<rparr>"

text \<open>An item with one video whose url holds two overlapping \<open>/play/\<close> markers.\<close>

definition videos_V :: "src_video list" where
  "videos_V = [\<lparr>v_url = Some ''https://h/play/play/77'', v_quality = None\<rparr>]"

definition item_V :: item where
  "item_V = item_B\<lparr>i_content := Some \<lparr>c_videos = Some videos_V, c_duration = None\<rparr>\<rparr>"

section \<open>Properties of truncate\<close>

lemma slice_to_nonneg: "0 \<le> k \<Longrightarrow> slice_to xs k = take (nat k) xs"
  by (simp add: slice_to_def)

lemma truncate_short: "int (length s) \<le> L \<Longrightarrow> truncate s L = s"
  by (simp add: truncate_def)

lemma truncate_long:
  "3 \<le> L \<Longrightarrow> L < int (length s) \<Longrightarrow> truncate s L = take (nat (L - 3)) s @ ''...''"
  by (auto simp: truncate_def slice_to_nonneg)

lemma length_truncate_long:
  assumes "3 \<le> L" and "L < int (length s)"
  shows "int (length (truncate s L)) = L"
proof -
  have "length (take (nat (L - 3)) s) = nat (L - 3)"
    using assms by simp
  then show ?thesis
    using assms by (simp add: truncate_long)
qed

lemma length_truncate: "3 \<le> L \<Longrightarrow> int (length (truncate s L)) \<le> L"
  using length_truncate_long [of L s] truncate_short [of s L]
  by (cases "int (length s) \<le> L") simp_all


lemma truncate_suffix:
  "3 \<le> L \<Longrightarrow> L < int (length s) \<Longrightarrow> suffix ''...'' (truncate s L)"
  by (simp add: truncate_long suffix_def)

lemma truncate_take:
  assumes "3 \<le> L" and "L < int (length s)"
  shows "take (nat (L - 3)) (truncate s L) = take (nat (L - 3)) s"
proof -
  have "length (take (nat (L - 3)) s) = nat (L - 3)"
    using assms by simp
  then show ?thesis
    using assms by (simp add: truncate_long)
qed

text \<open>
  C4, as stated (every limit): the length bound fails below a limit of 3, where
  \<open>text[:max_len - 3]\<close> has a negative bound. \<open>truncate("abcd", 2)\<close> is \<open>"abc..."\<close>,
  six characters long.
\<close>

theorem truncate_length_counterexample:
  "truncate ''abcd'' 2 = ''abc...'' \<and> \<not> int (length (truncate ''abcd'' 2)) \<le> 2"
  by (simp add: truncate_def slice_to_def)

text \<open>
  C4, amended: for every string \<open>s\<close> and every limit \<open>L\<close>, if \<open>len(s) \<le> L\<close> the
  result is \<open>s\<close>; for every limit \<open>L\<close> of at least 3, \<open>truncate s L\<close> has length at
  most \<open>L\<close>, and if \<open>len(s) > L\<close> the result ends with \<open>"..."\<close> and its first
  \<open>L - 3\<close> characters are the first \<open>L - 3\<close> characters of \<open>s\<close>.
\<close>

theorem truncate_correct:
  "(int (length s) \<le> L \<longrightarrow> truncate s L = s) \<and>
   (3 \<le> L \<longrightarrow>
      int (length (truncate s L)) \<le> L \<and>
      (L < int (length s) \<longrightarrow>
         suffix ''...'' (truncate s L) \<and>
         take (nat (L - 3)) (truncate s L) = take (nat (L - 3)) s))"
  using length_truncate [of L s] truncate_short [of s L] truncate_suffix [of L s]
    truncate_take [of L s]
  by blast

theorem truncate_correct_witness:
  "(3::int) \<le> 5 \<and> 5 < int (length ''abcdefgh'') \<and>
   truncate ''abcdefgh'' 5 = ''ab...'' \<and>
   int (length (truncate ''abcdefgh'' 5)) \<le> 5 \<and>
   suffix ''...'' (truncate ''abcdefgh'' 5) \<and>
   take (nat (5 - 3)) (truncate ''abcdefgh'' 5) = take (nat (5 - 3)) ''abcdefgh'' \<and>
   int (length ''abc'') \<le> 5 \<and> truncate ''abc'' 5 = ''abc''"
  using truncate_correct [where s = "''abcdefgh''" and L = 5]
    truncate_correct [where s = "''abc''" and L = 5]
  by (simp add: truncate_def slice_to_def)

text \<open>
  C9, as stated (every limit): below a limit of 3 a second truncation cuts again.
  \<open>truncate("ab", 1)\<close> is \<open>"..."\<close> and \<open>truncate("...", 1)\<close> is \<open>"...."\<close>.
\<close>

theorem truncate_idempotent_counterexample:
  "truncate ''ab'' 1 = ''...'' \<and> truncate (truncate ''ab'' 1) 1 = ''....'' \<and>
   truncate (truncate ''ab'' 1) 1 \<noteq> truncate ''ab'' 1"
  by (simp add: truncate_def slice_to_def)

text \<open>
  C9, amended: for every string \<open>s\<close> and every limit \<open>L\<close> of at least 3,
  \<open>truncate (truncate s L) L = truncate s L\<close>.
\<close>

theorem truncate_idempotent: "3 \<le> L \<Longrightarrow> truncate (truncate s L) L = truncate s L"
  using length_truncate [of L s] by (rule truncate_short)

theorem truncate_idempotent_witness:
  "(3::int) \<le> 5 \<and> truncate ''abcdefgh'' 5 = ''ab...'' \<and>
   truncate (truncate ''abcdefgh'' 5) 5 = truncate ''abcdefgh'' 5"
proof -
  have h: "(3::int) \<le> 5" by simp
  show ?thesis
    using h truncate_idempotent [OF h, of "''abcdefgh''"]
    by (simp add: truncate_def slice_to_def)
qed

section \<open>Facts about the genre table\<close>

lemma special_valid: "''special'' \<in> set VALID_GENRES"
  by (simp add: VALID_GENRES_def)

lemma faith_valid: "''faith'' \<in> set VALID_GENRES"
  by (simp add: VALID_GENRES_def)

lemma music_valid: "''music'' \<in> set VALID_GENRES"
  by (simp add: VALID_GENRES_def)

lemma holiday_valid: "''holiday'' \<in> set VALID_GENRES"
  by (simp add: VALID_GENRES_def)

lemma talk_valid: "''talk'' \<in> set VALID_GENRES"
  by (simp add: VALID_GENRES_def)

lemma community_valid: "''community'' \<in> set VALID_GENRES"
  by (simp add: VALID_GENRES_def)

lemma educational_valid: "''educational'' \<in> set VALID_GENRES"
  by (simp add: VALID_GENRES_def)

lemma VALID_GENRES_lowercase: "list_all (\<lambda>g. str_lower g = g) VALID_GENRES"
  by code_simp

lemma str_lower_special: "str_lower ''special'' = ''special''"
  by (simp add: str_lower_def str_lower_char_def)

lemma validate_genres_special: "validate_genres [''special''] = [''special'']"
  by (simp add: validate_genres_def str_lower_special special_valid)

lemma validate_genres_kept:
  "filter (\<lambda>g. str_lower g \<in> set VALID_GENRES) gs \<noteq> [] \<Longrightarrow>
   validate_genres gs = map str_lower (filter (\<lambda>g. str_lower g \<in> set VALID_GENRES) gs)"
  by (simp add: validate_genres_def)

lemma validate_genres_default:
  "filter (\<lambda>g. str_lower g \<in> set VALID_GENRES) gs = [] \<Longrightarrow> validate_genres gs = [''special'']"
  by (simp add: validate_genres_def)

lemma validate_genres_nonempty: "validate_genres gs \<noteq> []"
  by (simp add: validate_genres_def Let_def)

lemma validate_genres_subset: "set (validate_genres gs) \<subseteq> set VALID_GENRES"
proof (cases "filter (\<lambda>g. str_lower g \<in> set VALID_GENRES) gs = []")
  case True
  then show ?thesis
    by (simp add: validate_genres_default special_valid)
next
  case False
  then show ?thesis
    by (auto simp: validate_genres_kept)
qed

lemma classify_content_cases:
  "classify_content title description tags d \<in>
     set [[''faith''], [''music''], [''holiday''], [''talk''], [''community''], [''educational'']]"
  by (simp add: classify_content_def Let_def)

lemma classify_content_valid:
  "classify_content title description tags d \<noteq> [] \<and>
   set (classify_content title description tags d) \<subseteq> set VALID_GENRES"
  using classify_content_cases [of title description tags d]
    faith_valid music_valid holiday_valid talk_valid community_valid educational_valid
  by auto

lemma classify_content_nonempty: "classify_content title description tags d \<noteq> []"
  using classify_content_valid [of title description tags d] by simp

lemma classify_content_subset:
  "set (classify_content title description tags d) \<subseteq> set VALID_GENRES"
  using classify_content_valid [of title description tags d] by simp

section \<open>The fields of a converted item\<close>

text \<open>
  Both converters raise exactly when the id is absent. With an id they return an
  asset; its fields are read off the definition, one equation per field.
\<close>

lemma convert_item_no_id: "i_id item = None \<Longrightarrow> convert_item item t = Inl (KeyError ''id'')"
  by (simp add: convert_item_def Let_def)

lemma convert_item_returns:
  "i_id item = Some i \<Longrightarrow> convert_item item t = Inr (projr (convert_item item t))"
  by (simp add: convert_item_def Let_def)

lemma convert_item_Inr_id: "convert_item item t = Inr a \<Longrightarrow> \<exists>i. i_id item = Some i"
  by (cases "i_id item") (simp_all add: convert_item_no_id)

lemma convert_item_fields:
  assumes "i_id item = Some i"
  shows "a_id (projr (convert_item item t)) = slice_to i 50"
    and "a_type (projr (convert_item item t)) = t"
    and "a_titles (projr (convert_item item t)) =
           [\<lparr>l_value = truncate (dict_get (i_title item) ''Untitled'') 200,
             l_languages = Some [''en'']\<rparr>]"
    and "a_shortDescriptions (projr (convert_item item t)) =
           [\<lparr>l_value = truncate (dict_get (i_shortDescription item)
                       (truncate (dict_get (i_title item) ''Untitled'') 200)) 200,
             l_languages = Some [''en'']\<rparr>]"
    and "a_longDescriptions (projr (convert_item item t)) =
           (if truncate (dict_get (i_longDescription item) []) 500 \<noteq> []
            then Some [\<lparr>l_value = truncate (dict_get (i_longDescription item) []) 500,
                        l_languages = Some [''en'']\<rparr>]
            else None)"
    and "a_releaseDate (projr (convert_item item t)) = dict_get (i_releaseDate item) ''2025-01-01''"
    and "a_genres (projr (convert_item item t)) =
           validate_genres (dict_get (i_genres item) [''special''])"
    and "a_tags (projr (convert_item item t)) = convert_tags item"
    and "a_advisoryRatings (projr (convert_item item t)) = convert_rating item"
    and "a_images (projr (convert_item item t)) =
           (if dict_get (i_thumbnail item) [] \<noteq> []
            then [\<lparr>im_type = ''main'', im_url = dict_get (i_thumbnail item) []\<rparr>]
            else [])"
    and "a_durationInSeconds (projr (convert_item item t)) =
           (if dict_get (c_duration (dict_get (i_content item) empty_content)) 0 \<noteq> 0
            then dict_get (c_duration (dict_get (i_content item) empty_content)) 0
            else 60)"
    and "a_playOptions (projr (convert_item item t)) =
           (if dict_get (c_videos (dict_get (i_content item) empty_content)) [] = []
            then [\<lparr>po_license = ''free'', po_quality = ''hd'', po_playId = i\<rparr>]
            else map (play_option_of i)
                   (dict_get (c_videos (dict_get (i_content item) empty_content)) []))"
  using assms by (simp_all add: convert_item_def Let_def)

lemma convert_item_v2_no_id:
  "i_id item = None \<Longrightarrow> convert_item_v2 item t = Inl (KeyError ''id'')"
  by (simp add: convert_item_v2_def)

lemma convert_item_v2_returns:
  "i_id item = Some i \<Longrightarrow> convert_item_v2 item t = Inr (projr (convert_item_v2 item t))"
  by (simp add: convert_item_v2_def Let_def)

lemma convert_item_v2_Inr_id: "convert_item_v2 item t = Inr a \<Longrightarrow> \<exists>i. i_id item = Some i"
  by (cases "i_id item") (simp_all add: convert_item_v2_no_id)

lemma convert_item_v2_fields:
  assumes "i_id item = Some i"
  shows "a_id (projr (convert_item_v2 item t)) = i"
    and "a_type (projr (convert_item_v2 item t)) =
           (if t = ''shortform'' then ''shortform''
            else if 900 < a_durationInSeconds (projr (convert_item_v2 item t)) then ''movie''
            else ''shortform'')"
    and "a_titles (projr (convert_item_v2 item t)) =
           [\<lparr>l_value = slice_to (str_or (dict_get (i_title item) []) ''Untitled'') 200,
             l_languages = None\<rparr>]"
    and "a_shortDescriptions (projr (convert_item_v2 item t)) =
           [\<lparr>l_value = slice_to (str_or (dict_get (i_shortDescription item) [])
                       (slice_to (str_or (dict_get (i_title item) []) ''Untitled'') 200)) 200,
             l_languages = None\<rparr>]"
    and "a_longDescriptions (projr (convert_item_v2 item t)) =
           Some [\<lparr>l_value = slice_to (str_or (dict_get (i_longDescription item) [])
                    (slice_to (str_or (dict_get (i_shortDescription item) [])
                       (slice_to (str_or (dict_get (i_title item) []) ''Untitled'') 200)) 200)) 500,
             l_languages = None\<rparr>]"
    and "a_releaseDate (projr (convert_item_v2 item t)) =
           dict_get (i_releaseDate item) ''2025-01-01''"
    and "a_genres (projr (convert_item_v2 item t)) =
           classify_content
             (slice_to (str_or (dict_get (i_title item) []) ''Untitled'') 200)
             (slice_to (str_or (dict_get (i_shortDescription item) [])
                (slice_to (str_or (dict_get (i_title item) []) ''Untitled'') 200)) 200)
             (dict_get (i_tags item) [])
             (a_durationInSeconds (projr (convert_item_v2 item t)))"
    and "a_tags (projr (convert_item_v2 item t)) =
           Some (if map (\<lambda>t. slice_to t 20)
                      (filter (\<lambda>t. t \<noteq> [] \<and> length (str_strip t) > 0)
                         (dict_get (i_tags item) [])) \<noteq> []
                 then map (\<lambda>t. slice_to t 20)
                        (filter (\<lambda>t. t \<noteq> [] \<and> length (str_strip t) > 0)
                           (dict_get (i_tags item) []))
                 else [''faith''])"
    and "a_advisoryRatings (projr (convert_item_v2 item t)) =
           [\<lparr>ar_source = ''USA_PR'', ar_value = ''TV-G''\<rparr>]"
    and "a_images (projr (convert_item_v2 item t)) =
           (if dict_get (i_thumbnail item) [] \<noteq> []
            then [\<lparr>im_type = ''main'', im_url = dict_get (i_thumbnail item) []\<rparr>]
            else [])"
    and "a_durationInSeconds (projr (convert_item_v2 item t)) =
           (if dict_get (c_duration (dict_get (i_content item) empty_content)) 0 = 0 then 1
            else dict_get (c_duration (dict_get (i_content item) empty_content)) 0)"
    and "a_playOptions (projr (convert_item_v2 item t)) =
           [\<lparr>po_license = ''free'', po_quality = ''hd'',
             po_playId =
               (case dict_get (c_videos (dict_get (i_content item) empty_content)) [] of
                  [] \<Rightarrow> i
                | vid # _ \<Rightarrow>
                    (case search_play_digits (dict_get (v_url vid) []) of
                       None \<Rightarrow> i
                     | Some digits \<Rightarrow> digits))\<rparr>]"
  using assms by (simp_all add: convert_item_v2_def Let_def)


section \<open>Genres\<close>

lemma convert_item_genres:
  assumes "convert_item item t = Inr a"
  shows "a_genres a =
    validate_genres (case i_genres item of None \<Rightarrow> [''special''] | Some gs \<Rightarrow> gs)"
proof -
  obtain i where "i_id item = Some i"
    using assms convert_item_Inr_id by blast
  then have "a_genres (projr (convert_item item t)) =
      validate_genres (dict_get (i_genres item) [''special''])"
    by (rule convert_item_fields)
  then show ?thesis
    using assms by (simp add: dict_get_def)
qed

lemma convert_item_v2_genres:
  assumes "convert_item_v2 item t = Inr a"
  shows "a_genres a \<noteq> [] \<and> set (a_genres a) \<subseteq> set VALID_GENRES"
proof -
  obtain i where "i_id item = Some i"
    using assms convert_item_v2_Inr_id by blast
  then have "\<exists>title d tags n. a_genres (projr (convert_item_v2 item t)) =
      classify_content title d tags n"
    using convert_item_v2_fields(7) by blast
  then obtain title d tags n where "a_genres a = classify_content title d tags n"
    using assms by auto
  then show ?thesis
    using classify_content_nonempty classify_content_subset by simp
qed

text \<open>
  C3: the genres of every produced asset are a non-empty list of members of the
  canonical genre set, whose entries are all lowercase. Under the filter strategy
  (\<open>validate_genres\<close>, which the first converter applies to the item's genres, or to
  \<open>["special"]\<close> when it has none) the source genres whose lowercase form is in the
  set are kept, lowercased, in order, and when none is kept the result is
  \<open>["special"]\<close>.
\<close>

theorem genres_valid:
  "(convert_item item t = Inr a \<longrightarrow>
      a_genres a \<noteq> [] \<and> set (a_genres a) \<subseteq> set VALID_GENRES \<and>
      a_genres a =
        validate_genres (case i_genres item of None \<Rightarrow> [''special''] | Some gs \<Rightarrow> gs)) \<and>
   (convert_item_v2 item t = Inr a \<longrightarrow>
      a_genres a \<noteq> [] \<and> set (a_genres a) \<subseteq> set VALID_GENRES) \<and>
   (filter (\<lambda>g. str_lower g \<in> set VALID_GENRES) gs \<noteq> [] \<longrightarrow>
      validate_genres gs = map str_lower (filter (\<lambda>g. str_lower g \<in> set VALID_GENRES) gs)) \<and>
   (filter (\<lambda>g. str_lower g \<in> set VALID_GENRES) gs = [] \<longrightarrow>
      validate_genres gs = [''special'']) \<and>
   list_all (\<lambda>g. str_lower g = g) VALID_GENRES"
proof -
  have v1: "convert_item item t = Inr a \<longrightarrow>
      a_genres a \<noteq> [] \<and> set (a_genres a) \<subseteq> set VALID_GENRES \<and>
      a_genres a =
        validate_genres (case i_genres item of None \<Rightarrow> [''special''] | Some gs \<Rightarrow> gs)"
    using convert_item_genres [of item t a] validate_genres_nonempty validate_genres_subset
    by simp
  have v2: "convert_item_v2 item t = Inr a \<longrightarrow>
      a_genres a \<noteq> [] \<and> set (a_genres a) \<subseteq> set VALID_GENRES"
    using convert_item_v2_genres [of item t a] by simp
  show ?thesis
    using v1 v2 validate_genres_kept [of gs] validate_genres_default [of gs]
      VALID_GENRES_lowercase
    by blast
qed

lemma item_A_id: "i_id item_A = Some ''abc123''"
  by (simp add: item_A_def)

lemma item_B_id: "i_id item_B = Some ''abc123''"
  by (simp add: item_B_def)

theorem genres_valid_witness:
  "convert_item item_A ''movie'' = Inr (projr (convert_item item_A ''movie'')) \<and>
   a_genres (projr (convert_item item_A ''movie'')) = [''drama'', ''science fiction''] \<and>
   a_genres (projr (convert_item item_A ''movie'')) \<noteq> [] \<and>
   set (a_genres (projr (convert_item item_A ''movie''))) \<subseteq> set VALID_GENRES \<and>
   convert_item_v2 item_A ''movie'' = Inr (projr (convert_item_v2 item_A ''movie'')) \<and>
   a_genres (projr (convert_item_v2 item_A ''movie'')) = [''faith''] \<and>
   a_genres (projr (convert_item_v2 item_A ''movie'')) \<noteq> [] \<and>
   set (a_genres (projr (convert_item_v2 item_A ''movie''))) \<subseteq> set VALID_GENRES \<and>
   filter (\<lambda>g. str_lower g \<in> set VALID_GENRES) [''Drama'', ''Bogus'', ''SCIENCE fiction''] \<noteq> [] \<and>
   validate_genres [''Drama'', ''Bogus'', ''SCIENCE fiction''] = [''drama'', ''science fiction''] \<and>
   filter (\<lambda>g. str_lower g \<in> set VALID_GENRES) [''Bogus''] = [] \<and>
   validate_genres [''Bogus''] = [''special'']"
proof -
  have r1: "convert_item item_A ''movie'' = Inr (projr (convert_item item_A ''movie''))"
    by (rule convert_item_returns [OF item_A_id])
  have r2: "convert_item_v2 item_A ''movie'' = Inr (projr (convert_item_v2 item_A ''movie''))"
    by (rule convert_item_v2_returns [OF item_A_id])
  have k1: "filter (\<lambda>g. str_lower g \<in> set VALID_GENRES)
      [''Drama'', ''Bogus'', ''SCIENCE fiction''] \<noteq> []"
    by code_simp
  have k2: "filter (\<lambda>g. str_lower g \<in> set VALID_GENRES) [''Bogus''] = []"
    by code_simp
  have e1: "a_genres (projr (convert_item item_A ''movie'')) = [''drama'', ''science fiction'']"
    by code_simp
  have e2: "a_genres (projr (convert_item_v2 item_A ''movie'')) = [''faith'']"
    by code_simp
  have e3: "validate_genres [''Drama'', ''Bogus'', ''SCIENCE fiction''] =
      [''drama'', ''science fiction'']"
    by code_simp
  note t1 = genres_valid [where item = item_A and t = "''movie''"
      and a = "projr (convert_item item_A ''movie'')"
      and gs = "[''Drama'', ''Bogus'', ''SCIENCE fiction'']"]
  note t2 = genres_valid [where item = item_A and t = "''movie''"
      and a = "projr (convert_item_v2 item_A ''movie'')" and gs = "[''Bogus'']"]
  show ?thesis
    using r1 r2 k1 k2 e1 e2 e3 t1 t2 by blast
qed


section \<open>Release date\<close>

text \<open>
  C10: for every source item (with an id) that has no \<open>releaseDate\<close>, the asset's
  \<open>releaseDate\<close> is the literal \<open>"2025-01-01"\<close>, in both converters; a supplied
  \<open>releaseDate\<close> is passed through unchanged, whatever string it is.
\<close>

theorem releaseDate_default:
  assumes "i_id item = Some i"
  shows "(\<exists>a. convert_item item t = Inr a \<and>
            a_releaseDate a = (case i_releaseDate item of None \<Rightarrow> ''2025-01-01'' | Some d \<Rightarrow> d)) \<and>
         (\<exists>a. convert_item_v2 item t = Inr a \<and>
            a_releaseDate a = (case i_releaseDate item of None \<Rightarrow> ''2025-01-01'' | Some d \<Rightarrow> d))"
proof -
  have "a_releaseDate (projr (convert_item item t)) =
      (case i_releaseDate item of None \<Rightarrow> ''2025-01-01'' | Some d \<Rightarrow> d)"
    using convert_item_fields(6) [OF assms] by (simp add: dict_get_def)
  moreover have "a_releaseDate (projr (convert_item_v2 item t)) =
      (case i_releaseDate item of None \<Rightarrow> ''2025-01-01'' | Some d \<Rightarrow> d)"
    using convert_item_v2_fields(6) [OF assms] by (simp add: dict_get_def)
  ultimately show ?thesis
    using convert_item_returns [OF assms, of t] convert_item_v2_returns [OF assms, of t]
    by metis
qed

theorem releaseDate_default_witness:
  "i_id item_B = Some ''abc123'' \<and> i_releaseDate item_B = None \<and>
   (\<exists>a. convert_item item_B ''movie'' = Inr a \<and> a_releaseDate a = ''2025-01-01'') \<and>
   (\<exists>a. convert_item_v2 item_B ''movie'' = Inr a \<and> a_releaseDate a = ''2025-01-01'') \<and>
   i_id item_A = Some ''abc123'' \<and> i_releaseDate item_A = Some ''2020-05-17'' \<and>
   (\<exists>a. convert_item item_A ''movie'' = Inr a \<and> a_releaseDate a = ''2020-05-17'') \<and>
   (\<exists>a. convert_item_v2 item_A ''movie'' = Inr a \<and> a_releaseDate a = ''2020-05-17'')"
proof -
  have dB: "i_releaseDate item_B = None"
    by (simp add: item_B_def)
  have dA: "i_releaseDate item_A = Some ''2020-05-17''"
    by (simp add: item_A_def)
  show ?thesis
    using releaseDate_default [OF item_B_id, of "''movie''"]
      releaseDate_default [OF item_A_id, of "''movie''"]
    by (simp add: dA dB item_A_id item_B_id)
qed

section \<open>Declared type and duration threshold\<close>

lemma convert_item_type: "convert_item item t = Inr a \<Longrightarrow> a_type a = t"
  using convert_item_Inr_id [of item t a] convert_item_fields(2) [of item _ t]
  by auto

lemma convert_item_v2_type:
  assumes "convert_item_v2 item t = Inr a"
  shows "a_type a =
    (if t = ''shortform'' then ''shortform''
     else if 900 < a_durationInSeconds a then ''movie'' else ''shortform'')"
proof -
  obtain i where "i_id item = Some i"
    using assms convert_item_v2_Inr_id by blast
  from convert_item_v2_fields(2) [OF this, of t] show ?thesis
    using assms by simp
qed

text \<open>
  C5, as stated: the second converter does not keep a declared \<open>"movie"\<close>. For the
  item of Scenario B (no duration, so the duration is 1) declared as \<open>"movie"\<close> it
  returns the type \<open>"shortform"\<close>.
\<close>

theorem declared_movie_counterexample:
  "a_type (projr (convert_item_v2 item_B ''movie'')) = ''shortform'' \<and>
   convert_item_v2 item_B ''movie'' = Inr (projr (convert_item_v2 item_B ''movie'')) \<and>
   a_type (projr (convert_item_v2 item_B ''movie'')) \<noteq> ''movie''"
proof -
  have "a_type (projr (convert_item_v2 item_B ''movie'')) = ''shortform''"
    by code_simp
  then show ?thesis
    using convert_item_v2_returns [OF item_B_id, of "''movie''"] by simp
qed

text \<open>
  C5, amended: the first converter returns an asset whose type is the declared type,
  whatever it is, and applies no threshold. The second converter keeps a declared
  \<open>"shortform"\<close>; for every other declared type, \<open>"movie"\<close> included, the asset's type
  is \<open>"movie"\<close> when the asset's \<open>durationInSeconds\<close> is strictly greater than 900 and
  \<open>"shortform"\<close> otherwise.
\<close>

theorem asset_type_declared:
  "(convert_item item t = Inr a \<longrightarrow> a_type a = t) \<and>
   (convert_item_v2 item t = Inr a \<longrightarrow>
      a_type a =
        (if t = ''shortform'' then ''shortform''
         else if 900 < a_durationInSeconds a then ''movie'' else ''shortform''))"
  using convert_item_type [of item t a] convert_item_v2_type [of item t a] by blast

theorem asset_type_declared_witness:
  "convert_item item_A ''movie'' = Inr (projr (convert_item item_A ''movie'')) \<and>
   a_type (projr (convert_item item_A ''movie'')) = ''movie'' \<and>
   convert_item_v2 item_A ''movie'' = Inr (projr (convert_item_v2 item_A ''movie'')) \<and>
   a_durationInSeconds (projr (convert_item_v2 item_A ''movie'')) = 1200 \<and>
   a_type (projr (convert_item_v2 item_A ''movie'')) = ''movie'' \<and>
   convert_item_v2 item_A ''shortform'' = Inr (projr (convert_item_v2 item_A ''shortform'')) \<and>
   a_type (projr (convert_item_v2 item_A ''shortform'')) = ''shortform''"
proof -
  have r1: "convert_item item_A ''movie'' = Inr (projr (convert_item item_A ''movie''))"
    by (rule convert_item_returns [OF item_A_id])
  have r2: "convert_item_v2 item_A ''movie'' = Inr (projr (convert_item_v2 item_A ''movie''))"
    by (rule convert_item_v2_returns [OF item_A_id])
  have r3: "convert_item_v2 item_A ''shortform'' =
      Inr (projr (convert_item_v2 item_A ''shortform''))"
    by (rule convert_item_v2_returns [OF item_A_id])
  have d: "a_durationInSeconds (projr (convert_item_v2 item_A ''movie'')) = 1200"
    by code_simp
  note t1 = asset_type_declared [where item = item_A and t = "''movie''"
      and a = "projr (convert_item item_A ''movie'')"]
  note t2 = asset_type_declared [where item = item_A and t = "''movie''"
      and a = "projr (convert_item_v2 item_A ''movie'')"]
  note t3 = asset_type_declared [where item = item_A and t = "''shortform''"
      and a = "projr (convert_item_v2 item_A ''shortform'')"]
  have c1: "a_type (projr (convert_item item_A ''movie'')) = ''movie''"
    using t1 r1 by blast
  have c2: "a_type (projr (convert_item_v2 item_A ''movie'')) = ''movie''"
    using t2 r2 d by simp
  have c3: "a_type (projr (convert_item_v2 item_A ''shortform'')) = ''shortform''"
    using t3 r3 by simp
  show ?thesis
    using r1 r2 r3 d c1 c2 c3 by blast
qed


section \<open>Mandatory fields\<close>

text \<open>
  What holds of the mandatory fields in both converters: the ratings and the play
  options are never empty, and the duration is at least 1 whenever the source
  duration is absent, zero or positive.
\<close>

lemma convert_rating_nonempty: "convert_rating item \<noteq> []"
  by (simp add: convert_rating_def Let_def)

lemma convert_item_mandatory:
  assumes "convert_item item t = Inr a"
  shows "a_advisoryRatings a \<noteq> []" and "a_playOptions a \<noteq> []"
    and "i_content item = None \<Longrightarrow> a_durationInSeconds a = 60"
    and "i_content item = Some c \<Longrightarrow> c_duration c = None \<Longrightarrow> a_durationInSeconds a = 60"
    and "i_content item = Some c \<Longrightarrow> c_duration c = Some 0 \<Longrightarrow> a_durationInSeconds a = 60"
    and "i_content item = Some c \<Longrightarrow> c_duration c = Some d \<Longrightarrow> d \<noteq> 0 \<Longrightarrow>
           a_durationInSeconds a = d"
proof -
  obtain i where i: "i_id item = Some i"
    using assms convert_item_Inr_id by blast
  have a: "projr (convert_item item t) = a"
    using assms by simp
  show "a_advisoryRatings a \<noteq> []"
    using convert_item_fields(9) [OF i, of t] a by (simp add: convert_rating_nonempty)
  show "a_playOptions a \<noteq> []"
    using convert_item_fields(12) [OF i, of t] a by (simp split: if_splits)
  show "i_content item = None \<Longrightarrow> a_durationInSeconds a = 60"
    using convert_item_fields(11) [OF i, of t] a by (simp add: dict_get_def empty_content_def)
  show "i_content item = Some c \<Longrightarrow> c_duration c = None \<Longrightarrow> a_durationInSeconds a = 60"
    using convert_item_fields(11) [OF i, of t] a by (simp add: dict_get_def)
  show "i_content item = Some c \<Longrightarrow> c_duration c = Some 0 \<Longrightarrow> a_durationInSeconds a = 60"
    using convert_item_fields(11) [OF i, of t] a by (simp add: dict_get_def)
  show "i_content item = Some c \<Longrightarrow> c_duration c = Some d \<Longrightarrow> d \<noteq> 0 \<Longrightarrow>
      a_durationInSeconds a = d"
    using convert_item_fields(11) [OF i, of t] a by (simp add: dict_get_def)
qed

lemma convert_item_v2_mandatory:
  assumes "convert_item_v2 item t = Inr a"
  shows "a_advisoryRatings a \<noteq> []" and "a_playOptions a \<noteq> []"
    and "i_content item = None \<Longrightarrow> a_durationInSeconds a = 1"
    and "i_content item = Some c \<Longrightarrow> c_duration c = None \<Longrightarrow> a_durationInSeconds a = 1"
    and "i_content item = Some c \<Longrightarrow> c_duration c = Some 0 \<Longrightarrow> a_durationInSeconds a = 1"
    and "i_content item = Some c \<Longrightarrow> c_duration c = Some d \<Longrightarrow> d \<noteq> 0 \<Longrightarrow>
           a_durationInSeconds a = d"
proof -
  obtain i where i: "i_id item = Some i"
    using assms convert_item_v2_Inr_id by blast
  have a: "projr (convert_item_v2 item t) = a"
    using assms by simp
  show "a_advisoryRatings a \<noteq> []"
    using convert_item_v2_fields(9) [OF i, of t] a by simp
  show "a_playOptions a \<noteq> []"
    using convert_item_v2_fields(12) [OF i, of t] a by auto
  show "i_content item = None \<Longrightarrow> a_durationInSeconds a = 1"
    using convert_item_v2_fields(11) [OF i, of t] a by (simp add: dict_get_def empty_content_def)
  show "i_content item = Some c \<Longrightarrow> c_duration c = None \<Longrightarrow> a_durationInSeconds a = 1"
    using convert_item_v2_fields(11) [OF i, of t] a by (simp add: dict_get_def)
  show "i_content item = Some c \<Longrightarrow> c_duration c = Some 0 \<Longrightarrow> a_durationInSeconds a = 1"
    using convert_item_v2_fields(11) [OF i, of t] a by (simp add: dict_get_def)
  show "i_content item = Some c \<Longrightarrow> c_duration c = Some d \<Longrightarrow> d \<noteq> 0 \<Longrightarrow>
      a_durationInSeconds a = d"
    using convert_item_v2_fields(11) [OF i, of t] a by (simp add: dict_get_def)
qed

text \<open>
  C1 says that \<open>durationInSeconds\<close> is at least 1 also when the source duration is
  negative. Both converters test the source duration against zero only (\<open>if
  content.get("duration")\<close> in the first file, \<open>duration == 0\<close> in the second, whose
  comment reads "Minimum 1 second to avoid validation failure"), so a negative
  duration reaches the output: for the item \<open>{"id": "abc123", "content": {"duration":
  -5}}\<close> both return an asset with \<open>durationInSeconds = -5\<close>.
\<close>

theorem negative_duration_reaches_output:
  "convert_item item_negative ''movie'' =
     Inr (projr (convert_item item_negative ''movie'')) \<and>
   a_durationInSeconds (projr (convert_item item_negative ''movie'')) = - 5 \<and>
   convert_item_v2 item_negative ''movie'' =
     Inr (projr (convert_item_v2 item_negative ''movie'')) \<and>
   a_durationInSeconds (projr (convert_item_v2 item_negative ''movie'')) = - 5"
proof -
  have i: "i_id item_negative = Some ''abc123''"
    by (simp add: item_negative_def item_B_def)
  have d1: "a_durationInSeconds (projr (convert_item item_negative ''movie'')) = - 5"
    by code_simp
  have d2: "a_durationInSeconds (projr (convert_item_v2 item_negative ''movie'')) = - 5"
    by code_simp
  show ?thesis
    using convert_item_returns [OF i, of "''movie''"]
      convert_item_v2_returns [OF i, of "''movie''"] d1 d2
    by blast
qed

section \<open>Identifier\<close>

lemma slice_to_50: "slice_to s 50 = take 50 s"
  by (simp add: slice_to_def)

lemma convert_item_id:
  assumes "convert_item item t = Inr a" and "i_id item = Some i"
  shows "a_id a = take 50 i" and "length (a_id a) \<le> 50"
proof -
  show "a_id a = take 50 i"
    using convert_item_fields(1) [OF assms(2), of t] assms(1) by (simp add: slice_to_50)
  then show "length (a_id a) \<le> 50"
    by simp
qed

text \<open>
  C2 says that the asset's id has at most 50 characters. The first converter cuts
  it (\<open>item["id"][:50]\<close>, commented "Max 50 chars"); the second stores \<open>item["id"]\<close>
  as it is. For an item whose id has 51 characters the second converter returns an
  asset whose id is that same string, 51 characters long.
\<close>

theorem long_id_not_truncated:
  "convert_item_v2 item_long_id ''movie'' =
     Inr (projr (convert_item_v2 item_long_id ''movie'')) \<and>
   a_id (projr (convert_item_v2 item_long_id ''movie'')) =
     ''123456789012345678901234567890123456789012345678901'' \<and>
   length (a_id (projr (convert_item_v2 item_long_id ''movie''))) = 51"
proof -
  have i: "i_id item_long_id = Some ''123456789012345678901234567890123456789012345678901''"
    by (simp add: item_long_id_def item_B_def)
  have e: "a_id (projr (convert_item_v2 item_long_id ''movie'')) =
      ''123456789012345678901234567890123456789012345678901''"
    using convert_item_v2_fields(1) [OF i] by simp
  have l: "length (a_id (projr (convert_item_v2 item_long_id ''movie''))) = 51"
    unfolding e by simp
  show ?thesis
    using convert_item_v2_returns [OF i, of "''movie''"] e l by blast
qed


section \<open>Errors and defaults\<close>

lemma slice_to_take: "0 \<le> k \<Longrightarrow> slice_to (slice_to s k) k = slice_to s k"
  by (simp add: slice_to_def)

lemma slice_to_take_le: "0 \<le> k \<Longrightarrow> k \<le> m \<Longrightarrow> slice_to (slice_to s k) m = slice_to s k"
  by (simp add: slice_to_def)

lemma truncate_twice_200: "truncate (truncate s 200) 200 = truncate s 200"
  using length_truncate [of 200 s] by (simp add: truncate_short)

lemma convert_item_defaults:
  assumes "i_id item = Some i"
  shows "\<exists>a. convert_item item t = Inr a \<and>
    (i_title item = None \<longrightarrow>
       a_titles a = [\<lparr>l_value = ''Untitled'', l_languages = Some [''en'']\<rparr>]) \<and>
    (i_shortDescription item = None \<longrightarrow> a_shortDescriptions a = a_titles a) \<and>
    (i_longDescription item = None \<longrightarrow> a_longDescriptions a = None) \<and>
    (i_releaseDate item = None \<longrightarrow> a_releaseDate a = ''2025-01-01'') \<and>
    (i_genres item = None \<longrightarrow> a_genres a = [''special'']) \<and>
    (i_tags item = None \<longrightarrow> a_tags a = None) \<and>
    (i_thumbnail item = None \<longrightarrow> a_images a = []) \<and>
    (i_rating item = None \<longrightarrow>
       a_advisoryRatings a = [\<lparr>ar_source = ''USA_PR'', ar_value = ''TV-G''\<rparr>]) \<and>
    (i_content item = None \<longrightarrow>
       a_durationInSeconds a = 60 \<and>
       a_playOptions a = [\<lparr>po_license = ''free'', po_quality = ''hd'', po_playId = i\<rparr>])"
proof -
  let ?a = "projr (convert_item item t)"
  note f = convert_item_fields [OF assms, of t]
  have c1: "i_title item = None \<longrightarrow>
      a_titles ?a = [\<lparr>l_value = ''Untitled'', l_languages = Some [''en'']\<rparr>]"
    by (simp add: f(3) dict_get_def truncate_def)
  have c2: "i_shortDescription item = None \<longrightarrow> a_shortDescriptions ?a = a_titles ?a"
    by (simp add: f(3,4) dict_get_def truncate_twice_200)
  have c3: "i_longDescription item = None \<longrightarrow> a_longDescriptions ?a = None"
    by (simp add: f(5) dict_get_def truncate_def)
  have c4: "i_releaseDate item = None \<longrightarrow> a_releaseDate ?a = ''2025-01-01''"
    by (simp add: f(6) dict_get_def)
  have c5: "i_genres item = None \<longrightarrow> a_genres ?a = [''special'']"
    by (simp add: f(7) dict_get_def validate_genres_special)
  have c6: "i_tags item = None \<longrightarrow> a_tags ?a = None"
    by (simp add: f(8) dict_get_def convert_tags_def)
  have c7: "i_thumbnail item = None \<longrightarrow> a_images ?a = []"
    by (simp add: f(10) dict_get_def)
  have c8: "i_rating item = None \<longrightarrow>
      a_advisoryRatings ?a = [\<lparr>ar_source = ''USA_PR'', ar_value = ''TV-G''\<rparr>]"
    by (simp add: f(9) dict_get_def convert_rating_def empty_rating_def)
  have c9: "i_content item = None \<longrightarrow>
      a_durationInSeconds ?a = 60 \<and>
      a_playOptions ?a = [\<lparr>po_license = ''free'', po_quality = ''hd'', po_playId = i\<rparr>]"
    by (simp add: f(11,12) dict_get_def empty_content_def)
  show ?thesis
    by (rule exI [of _ ?a], intro conjI) (fact convert_item_returns [OF assms, of t] | fact)+
qed

lemma convert_item_v2_defaults:
  assumes "i_id item = Some i"
  shows "\<exists>a. convert_item_v2 item t = Inr a \<and>
    (i_title item = None \<longrightarrow> a_titles a = [\<lparr>l_value = ''Untitled'', l_languages = None\<rparr>]) \<and>
    (i_shortDescription item = None \<longrightarrow> a_shortDescriptions a = a_titles a) \<and>
    (i_longDescription item = None \<longrightarrow> a_longDescriptions a = Some (a_shortDescriptions a)) \<and>
    (i_releaseDate item = None \<longrightarrow> a_releaseDate a = ''2025-01-01'') \<and>
    a_genres a \<noteq> [] \<and> set (a_genres a) \<subseteq> set VALID_GENRES \<and>
    (i_tags item = None \<longrightarrow> a_tags a = Some [''faith'']) \<and>
    (i_thumbnail item = None \<longrightarrow> a_images a = []) \<and>
    a_advisoryRatings a = [\<lparr>ar_source = ''USA_PR'', ar_value = ''TV-G''\<rparr>] \<and>
    (i_content item = None \<longrightarrow>
       a_durationInSeconds a = 1 \<and>
       a_playOptions a = [\<lparr>po_license = ''free'', po_quality = ''hd'', po_playId = i\<rparr>])"
proof -
  let ?a = "projr (convert_item_v2 item t)"
  note f = convert_item_v2_fields [OF assms, of t]
  note r = convert_item_v2_returns [OF assms, of t]
  have c1: "i_title item = None \<longrightarrow>
      a_titles ?a = [\<lparr>l_value = ''Untitled'', l_languages = None\<rparr>]"
    by (simp add: f(3) dict_get_def str_or_def slice_to_def)
  have c2: "i_shortDescription item = None \<longrightarrow> a_shortDescriptions ?a = a_titles ?a"
    by (simp add: f(3,4) dict_get_def str_or_def slice_to_take)
  have c3: "i_longDescription item = None \<longrightarrow>
      a_longDescriptions ?a = Some (a_shortDescriptions ?a)"
    by (simp add: f(4,5) dict_get_def str_or_def slice_to_take_le)
  have c4: "i_releaseDate item = None \<longrightarrow> a_releaseDate ?a = ''2025-01-01''"
    by (simp add: f(6) dict_get_def)
  have g1: "a_genres ?a \<noteq> []" and g2: "set (a_genres ?a) \<subseteq> set VALID_GENRES"
    using convert_item_v2_genres [OF r] by simp_all
  have c6: "i_tags item = None \<longrightarrow> a_tags ?a = Some [''faith'']"
    by (simp add: f(8) dict_get_def)
  have c7: "i_thumbnail item = None \<longrightarrow> a_images ?a = []"
    by (simp add: f(10) dict_get_def)
  have c8: "a_advisoryRatings ?a = [\<lparr>ar_source = ''USA_PR'', ar_value = ''TV-G''\<rparr>]"
    by (simp add: f(9))
  have c9: "i_content item = None \<longrightarrow>
      a_durationInSeconds ?a = 1 \<and>
      a_playOptions ?a = [\<lparr>po_license = ''free'', po_quality = ''hd'', po_playId = i\<rparr>]"
    by (simp add: f(11,12) dict_get_def empty_content_def)
  show ?thesis
    by (rule exI [of _ ?a], intro conjI) (fact r | fact)+
qed


text \<open>
  C8: a conversion fails exactly when the source record has no id. Without an id both
  converters raise \<open>KeyError('id')\<close>; with an id both return an asset, and every other
  absent field is replaced by its default: the title by \<open>"Untitled"\<close>, the short
  description by the title, the release date by \<open>"2025-01-01"\<close>, the thumbnail by an
  empty image list, the rating by \<open>USA_PR\<close>/\<open>TV-G\<close>, the content by one play option
  keyed by the item's id and the default duration (60 in the first file, 1 in the
  second); an absent long description, genre list or tag list gives no
  \<open>longDescriptions\<close>, \<open>["special"]\<close> and no \<open>tags\<close> in the first file, and the short
  description, a genre of the canonical set and \<open>["faith"]\<close> in the second.
\<close>

theorem convert_item_fails_iff_no_id:
  "(i_id item = None \<longrightarrow>
      convert_item item t = Inl (KeyError ''id'') \<and>
      convert_item_v2 item t = Inl (KeyError ''id'')) \<and>
   ((\<exists>e. convert_item item t = Inl e) = (i_id item = None)) \<and>
   ((\<exists>e. convert_item_v2 item t = Inl e) = (i_id item = None)) \<and>
   (i_id item = Some i \<longrightarrow>
      (\<exists>a. convert_item item t = Inr a \<and>
         (i_title item = None \<longrightarrow>
            a_titles a = [\<lparr>l_value = ''Untitled'', l_languages = Some [''en'']\<rparr>]) \<and>
         (i_shortDescription item = None \<longrightarrow> a_shortDescriptions a = a_titles a) \<and>
         (i_longDescription item = None \<longrightarrow> a_longDescriptions a = None) \<and>
         (i_releaseDate item = None \<longrightarrow> a_releaseDate a = ''2025-01-01'') \<and>
         (i_genres item = None \<longrightarrow> a_genres a = [''special'']) \<and>
         (i_tags item = None \<longrightarrow> a_tags a = None) \<and>
         (i_thumbnail item = None \<longrightarrow> a_images a = []) \<and>
         (i_rating item = None \<longrightarrow>
            a_advisoryRatings a = [\<lparr>ar_source = ''USA_PR'', ar_value = ''TV-G''\<rparr>]) \<and>
         (i_content item = None \<longrightarrow>
            a_durationInSeconds a = 60 \<and>
            a_playOptions a = [\<lparr>po_license = ''free'', po_quality = ''hd'', po_playId = i\<rparr>])) \<and>
      (\<exists>a. convert_item_v2 item t = Inr a \<and>
         (i_title item = None \<longrightarrow> a_titles a = [\<lparr>l_value = ''Untitled'', l_languages = None\<rparr>]) \<and>
         (i_shortDescription item = None \<longrightarrow> a_shortDescriptions a = a_titles a) \<and>
         (i_longDescription item = None \<longrightarrow>
            a_longDescriptions a = Some (a_shortDescriptions a)) \<and>
         (i_releaseDate item = None \<longrightarrow> a_releaseDate a = ''2025-01-01'') \<and>
         a_genres a \<noteq> [] \<and> set (a_genres a) \<subseteq> set VALID_GENRES \<and>
         (i_tags item = None \<longrightarrow> a_tags a = Some [''faith'']) \<and>
         (i_thumbnail item = None \<longrightarrow> a_images a = []) \<and>
         a_advisoryRatings a = [\<lparr>ar_source = ''USA_PR'', ar_value = ''TV-G''\<rparr>] \<and>
         (i_content item = None \<longrightarrow>
            a_durationInSeconds a = 1 \<and>
            a_playOptions a = [\<lparr>po_license = ''free'', po_quality = ''hd'', po_playId = i\<rparr>])))"
proof -
  have n: "i_id item = None \<longrightarrow>
      convert_item item t = Inl (KeyError ''id'') \<and>
      convert_item_v2 item t = Inl (KeyError ''id'')"
    by (simp add: convert_item_no_id convert_item_v2_no_id)
  have e1: "(\<exists>e. convert_item item t = Inl e) = (i_id item = None)"
  proof (cases "i_id item")
    case None
    then show ?thesis by (simp add: convert_item_no_id)
  next
    case (Some j)
    from convert_item_returns [OF this, of t] show ?thesis
      using Some by (metis Inl_Inr_False option.distinct(1))
  qed
  have e2: "(\<exists>e. convert_item_v2 item t = Inl e) = (i_id item = None)"
  proof (cases "i_id item")
    case None
    then show ?thesis by (simp add: convert_item_v2_no_id)
  next
    case (Some j)
    from convert_item_v2_returns [OF this, of t] show ?thesis
      using Some by (metis Inl_Inr_False option.distinct(1))
  qed
  show ?thesis
    by (intro conjI impI n e1 e2 convert_item_defaults convert_item_v2_defaults)
qed

lemma item_D_id: "i_id item_D = None"
  by (simp add: item_D_def item_B_def)

lemma convert_item_item_B:
  "convert_item item_B ''movie'' =
     Inr \<lparr>a_id = ''abc123'', a_type = ''movie'',
       a_titles = [\<lparr>l_value = ''Untitled'', l_languages = Some [''en'']\<rparr>],
       a_shortDescriptions = [\<lparr>l_value = ''Untitled'', l_languages = Some [''en'']\<rparr>],
       a_longDescriptions = None, a_releaseDate = ''2025-01-01'',
       a_genres = [''special''], a_tags = None,
       a_advisoryRatings = [\<lparr>ar_source = ''USA_PR'', ar_value = ''TV-G''\<rparr>],
       a_images = [], a_durationInSeconds = 60,
       a_playOptions = [\<lparr>po_license = ''free'', po_quality = ''hd'', po_playId = ''abc123''\<rparr>]\<rparr>"
  by code_simp

lemma convert_item_v2_item_B:
  "convert_item_v2 item_B ''movie'' =
     Inr \<lparr>a_id = ''abc123'', a_type = ''shortform'',
       a_titles = [\<lparr>l_value = ''Untitled'', l_languages = None\<rparr>],
       a_shortDescriptions = [\<lparr>l_value = ''Untitled'', l_languages = None\<rparr>],
       a_longDescriptions = Some [\<lparr>l_value = ''Untitled'', l_languages = None\<rparr>],
       a_releaseDate = ''2025-01-01'',
       a_genres = [''faith''], a_tags = Some [''faith''],
       a_advisoryRatings = [\<lparr>ar_source = ''USA_PR'', ar_value = ''TV-G''\<rparr>],
       a_images = [], a_durationInSeconds = 1,
       a_playOptions = [\<lparr>po_license = ''free'', po_quality = ''hd'', po_playId = ''abc123''\<rparr>]\<rparr>"
  by code_simp

theorem convert_item_fails_iff_no_id_witness:
  "i_id item_D = None \<and>
   convert_item item_D ''movie'' = Inl (KeyError ''id'') \<and>
   convert_item_v2 item_D ''movie'' = Inl (KeyError ''id'') \<and>
   i_id item_B = Some ''abc123'' \<and>
   convert_item item_B ''movie'' =
     Inr \<lparr>a_id = ''abc123'', a_type = ''movie'',
       a_titles = [\<lparr>l_value = ''Untitled'', l_languages = Some [''en'']\<rparr>],
       a_shortDescriptions = [\<lparr>l_value = ''Untitled'', l_languages = Some [''en'']\<rparr>],
       a_longDescriptions = None, a_releaseDate = ''2025-01-01'',
       a_genres = [''special''], a_tags = None,
       a_advisoryRatings = [\<lparr>ar_source = ''USA_PR'', ar_value = ''TV-G''\<rparr>],
       a_images = [], a_durationInSeconds = 60,
       a_playOptions = [\<lparr>po_license = ''free'', po_quality = ''hd'', po_playId = ''abc123''\<rparr>]\<rparr> \<and>
   convert_item_v2 item_B ''movie'' =
     Inr \<lparr>a_id = ''abc123'', a_type = ''shortform'',
       a_titles = [\<lparr>l_value = ''Untitled'', l_languages = None\<rparr>],
       a_shortDescriptions = [\<lparr>l_value = ''Untitled'', l_languages = None\<rparr>],
       a_longDescriptions = Some [\<lparr>l_value = ''Untitled'', l_languages = None\<rparr>],
       a_releaseDate = ''2025-01-01'',
       a_genres = [''faith''], a_tags = Some [''faith''],
       a_advisoryRatings = [\<lparr>ar_source = ''USA_PR'', ar_value = ''TV-G''\<rparr>],
       a_images = [], a_durationInSeconds = 1,
       a_playOptions = [\<lparr>po_license = ''free'', po_quality = ''hd'', po_playId = ''abc123''\<rparr>]\<rparr>"
proof -
  note d = convert_item_fails_iff_no_id [where item = item_D and t = "''movie''"]
  note b = convert_item_fails_iff_no_id [where item = item_B and t = "''movie''"
      and i = "''abc123''"]
  have d1: "convert_item item_D ''movie'' = Inl (KeyError ''id'')"
    and d2: "convert_item_v2 item_D ''movie'' = Inl (KeyError ''id'')"
    using d item_D_id by blast+
  show ?thesis
    using b by (intro conjI item_D_id item_B_id d1 d2 convert_item_item_B convert_item_v2_item_B)
qed


section \<open>Tags\<close>

lemma rev_dropWhile_rev: "rev (dropWhile P (rev u)) = take (length u - length (takeWhile P (rev u))) u"
  by (simp add: dropWhile_eq_drop rev_drop)

lemma str_strip_hd:
  assumes "str_strip s \<noteq> []"
  shows "\<not> is_space (hd (str_strip s))"
proof -
  let ?u = "dropWhile is_space s"
  let ?n = "length ?u - length (takeWhile is_space (rev ?u))"
  have eq: "str_strip s = take ?n ?u"
    by (simp add: str_strip_def rev_dropWhile_rev)
  with assms have "0 < ?n" and "?u \<noteq> []"
    by auto
  then have "hd (str_strip s) = hd ?u" and "\<not> is_space (hd ?u)"
    using eq hd_dropWhile [of is_space s] by simp_all
  then show ?thesis
    by simp
qed

lemma slice_to_20: "slice_to s 20 = take 20 s"
  by (simp add: slice_to_def)

lemma clean_tags_props:
  assumes "tag \<in> set (map (\<lambda>t. take 20 (str_strip (str_strip_chars [CHR 0x22] t)))
      (filter (\<lambda>t. str_strip (str_strip_chars [CHR 0x22] t) \<noteq> []) ts))"
  shows "tag \<noteq> [] \<and> length tag \<le> 20 \<and> \<not> is_space (hd tag)"
proof -
  from assms obtain t where t: "str_strip (str_strip_chars [CHR 0x22] t) \<noteq> []"
    and tag: "tag = take 20 (str_strip (str_strip_chars [CHR 0x22] t))"
    by auto
  from str_strip_hd [OF t] show ?thesis
    using t by (simp add: tag)
qed

lemma str_strip_Nil: "str_strip [] = []"
  by (simp add: str_strip_def)

lemma kept_tags_v2_props:
  assumes "tag \<in> set (map (take 20) (filter (\<lambda>t. str_strip t \<noteq> []) ts))"
  shows "tag \<noteq> [] \<and> length tag \<le> 20"
proof -
  from assms obtain t where "str_strip t \<noteq> []" and tag: "tag = take 20 t"
    by auto
  then have "t \<noteq> []"
    using str_strip_Nil by auto
  then show ?thesis
    by (simp add: tag)
qed

lemma convert_item_tags:
  assumes "convert_item item t = Inr a"
  shows "a_tags a =
    (if map (\<lambda>t. take 20 (str_strip (str_strip_chars [CHR 0x22] t)))
          (filter (\<lambda>t. str_strip (str_strip_chars [CHR 0x22] t) \<noteq> [])
             (case i_tags item of None \<Rightarrow> [] | Some ts \<Rightarrow> ts)) = []
     then None
     else Some (map (\<lambda>t. take 20 (str_strip (str_strip_chars [CHR 0x22] t)))
          (filter (\<lambda>t. str_strip (str_strip_chars [CHR 0x22] t) \<noteq> [])
             (case i_tags item of None \<Rightarrow> [] | Some ts \<Rightarrow> ts))))"
proof -
  obtain i where "i_id item = Some i"
    using assms convert_item_Inr_id by blast
  from convert_item_fields(8) [OF this, of t] have "a_tags a = convert_tags item"
    using assms by simp
  then show ?thesis
    by (simp add: convert_tags_def clean_tag_def slice_to_20 dict_get_def Let_def)
qed

lemma filter_nonblank:
  "filter (\<lambda>t. t \<noteq> [] \<and> str_strip t \<noteq> []) ts = filter (\<lambda>t. str_strip t \<noteq> []) ts"
  by (rule filter_cong) (auto simp: str_strip_Nil)

lemma convert_item_v2_tags:
  assumes "convert_item_v2 item t = Inr a"
  shows "a_tags a =
    Some (if map (take 20) (filter (\<lambda>t. str_strip t \<noteq> [])
                (case i_tags item of None \<Rightarrow> [] | Some ts \<Rightarrow> ts)) = []
          then [''faith'']
          else map (take 20) (filter (\<lambda>t. str_strip t \<noteq> [])
                (case i_tags item of None \<Rightarrow> [] | Some ts \<Rightarrow> ts)))"
proof -
  obtain i where "i_id item = Some i"
    using assms convert_item_v2_Inr_id by blast
  from convert_item_v2_fields(8) [OF this, of t] show ?thesis
    using assms by (simp add: slice_to_20 dict_get_def filter_nonblank)
qed

text \<open>
  Stripping characters from both ends, in general: a string that is a run of
  stripped characters, a core and another run of stripped characters is stripped to
  its core, when the core is empty or begins and ends with a character that is kept.
\<close>

lemma dropWhile_hd_kept: "xs \<noteq> [] \<Longrightarrow> \<not> P (hd xs) \<Longrightarrow> dropWhile P xs = xs"
  by (cases xs) simp_all

lemma strip_sandwich:
  assumes a: "\<forall>c\<in>set a. P c" and b: "\<forall>c\<in>set b. P c"
    and m: "m = [] \<or> (\<not> P (hd m) \<and> \<not> P (last m))"
  shows "rev (dropWhile P (rev (dropWhile P (a @ m @ b)))) = m"
proof (cases "m = []")
  case True
  have d: "dropWhile P (a @ [] @ b) = []"
    using a b by simp
  show ?thesis
    unfolding True d by simp
next
  case False
  with m have h: "\<not> P (hd m)" and l: "\<not> P (last m)"
    by simp_all
  have "dropWhile P (a @ m @ b) = dropWhile P (m @ b)"
    using a by (simp add: dropWhile_append2)
  also have "\<dots> = m @ b"
    using False h by (simp add: dropWhile_hd_kept)
  finally have 1: "dropWhile P (a @ m @ b) = m @ b" .
  have "dropWhile P (rev (m @ b)) = dropWhile P (rev m)"
    using b by (simp add: dropWhile_append)
  also have "\<dots> = rev m"
    using False l by (simp add: dropWhile_hd_kept hd_rev)
  finally show ?thesis
    unfolding 1 by simp
qed

lemma strip_ends:
  assumes "r = rev (dropWhile P (rev (dropWhile P s)))"
  shows "r = [] \<or> (\<not> P (hd r) \<and> \<not> P (last r))"
proof (cases "r = []")
  case True
  then show ?thesis by simp
next
  case False
  let ?u = "dropWhile P s"
  let ?x = "dropWhile P (rev ?u)"
  have r: "r = rev ?x"
    using assms .
  with False have x: "?x \<noteq> []"
    by simp
  have "last r = hd ?x"
    unfolding r using x by (simp add: last_rev)
  then have l: "\<not> P (last r)"
    using hd_dropWhile [OF x] by simp
  have eq: "r = take (length ?u - length (takeWhile P (rev ?u))) ?u"
    unfolding r by (rule rev_dropWhile_rev)
  with False have "0 < length ?u - length (takeWhile P (rev ?u))" and u: "?u \<noteq> []"
    by auto
  then have "hd r = hd ?u"
    using eq by simp
  then have "\<not> P (hd r)"
    using hd_dropWhile [OF u] by simp
  with l show ?thesis
    by simp
qed

lemma sandwich_ends:
  assumes a: "\<forall>c\<in>set a. S c" and b: "\<forall>c\<in>set b. S c"
    and m: "m = [] \<or> (S (hd m) \<and> S (last m))"
  shows "a @ m @ b = [] \<or> (S (hd (a @ m @ b)) \<and> S (last (a @ m @ b)))"
proof (cases "a @ m @ b = []")
  case True
  then show ?thesis by simp
next
  case False
  have h: "S (hd (a @ m @ b))"
  proof (cases "a = []")
    case a0: True
    show ?thesis
    proof (cases "m = []")
      case True
      with a0 False have "b \<noteq> []" by simp
      then show ?thesis
        using a0 True b by simp
    next
      case False
      then show ?thesis
        using a0 m by simp
    qed
  next
    case False
    then show ?thesis
      using a by simp
  qed
  have l: "S (last (a @ m @ b))"
  proof (cases "b = []")
    case b0: True
    show ?thesis
    proof (cases "m = []")
      case True
      with b0 False have "a \<noteq> []" by simp
      then show ?thesis
        using b0 True a by simp
    next
      case False
      then show ?thesis
        using b0 m by simp
    qed
  next
    case False
    then show ?thesis
      using b by simp
  qed
  from h l show ?thesis
    by simp
qed

lemma quote_not_space: "\<not> is_space (CHR 0x22)"
  by (simp add: is_space_def whitespace_def)

text \<open>
  When the quotes of a tag lie outside its surrounding whitespace, stripping the
  quotes and then the whitespace gives the tag with all its surrounding quotes and
  whitespace removed.
\<close>

lemma clean_tag_quotes_outside:
  assumes t: "t = qs1 @ ws1 @ str_strip_chars (CHR 0x22 # whitespace) t @ ws2 @ qs2"
    and q1: "set qs1 \<subseteq> {CHR 0x22}" and q2: "set qs2 \<subseteq> {CHR 0x22}"
    and w1: "set ws1 \<subseteq> set whitespace" and w2: "set ws2 \<subseteq> set whitespace"
  shows "clean_tag t = str_strip_chars (CHR 0x22 # whitespace) t"
proof -
  let ?r = "str_strip_chars (CHR 0x22 # whitespace) t"
  let ?m = "ws1 @ ?r @ ws2"
  have r: "?r = [] \<or>
      (\<not> (hd ?r \<in> set (CHR 0x22 # whitespace)) \<and> \<not> (last ?r \<in> set (CHR 0x22 # whitespace)))"
    by (rule strip_ends) (simp add: str_strip_chars_def)
  then have rq: "?r = [] \<or> (hd ?r \<noteq> CHR 0x22 \<and> last ?r \<noteq> CHR 0x22)"
    and rs: "?r = [] \<or> (\<not> is_space (hd ?r) \<and> \<not> is_space (last ?r))"
    by (auto simp: is_space_def)
  have w1': "\<forall>c\<in>set ws1. c \<noteq> CHR 0x22" and w2': "\<forall>c\<in>set ws2. c \<noteq> CHR 0x22"
    using w1 w2 quote_not_space by (auto simp: is_space_def)
  have mq: "?m = [] \<or> (hd ?m \<noteq> CHR 0x22 \<and> last ?m \<noteq> CHR 0x22)"
    using sandwich_ends [of ws1 "\<lambda>c. c \<noteq> CHR 0x22" ws2 ?r] w1' w2' rq by blast
  have t': "t = qs1 @ ?m @ qs2"
    using t by simp
  have "rev (dropWhile (\<lambda>c. c \<in> set [CHR 0x22])
      (rev (dropWhile (\<lambda>c. c \<in> set [CHR 0x22]) (qs1 @ ?m @ qs2)))) = ?m"
    using q1 q2 mq by (intro strip_sandwich) auto
  then have e: "str_strip_chars [CHR 0x22] (qs1 @ ?m @ qs2) = ?m"
    unfolding str_strip_chars_def [of "[CHR 0x22]"] .
  from t' have "str_strip_chars [CHR 0x22] t = str_strip_chars [CHR 0x22] (qs1 @ ?m @ qs2)"
    by (rule arg_cong)
  also note e
  finally have 1: "str_strip_chars [CHR 0x22] t = ?m" .
  have "rev (dropWhile is_space (rev (dropWhile is_space (ws1 @ ?r @ ws2)))) = ?r"
    using w1 w2 rs by (intro strip_sandwich) (auto simp: is_space_def)
  then have 2: "str_strip ?m = ?r"
    unfolding str_strip_def .
  show ?thesis
    unfolding clean_tag_def 1 by (rule 2)
qed

text \<open>
  A tag that is a single no-break space is whitespace only: the first converter
  drops it and the second falls back to \<open>["faith"]\<close>.
\<close>

lemma no_break_space_tag:
  "a_tags (projr (convert_item (item_B\<lparr>i_tags := Some [[CHR 0xA0]]\<rparr>) ''movie'')) = None"
  "a_tags (projr (convert_item_v2 (item_B\<lparr>i_tags := Some [[CHR 0xA0]]\<rparr>) ''movie'')) =
     Some [''faith'']"
  by code_simp+

lemma convert_item_tags_bounds:
  assumes "convert_item item t = Inr a"
  shows "a_tags a \<noteq> Some []"
    and "\<forall>tag \<in> set (case a_tags a of None \<Rightarrow> [] | Some ts \<Rightarrow> ts).
           tag \<noteq> [] \<and> length tag \<le> 20 \<and> \<not> is_space (hd tag)"
proof -
  note e = convert_item_tags [OF assms]
  show "a_tags a \<noteq> Some []"
    unfolding e by simp
  show "\<forall>tag \<in> set (case a_tags a of None \<Rightarrow> [] | Some ts \<Rightarrow> ts).
      tag \<noteq> [] \<and> length tag \<le> 20 \<and> \<not> is_space (hd tag)"
  proof
    fix tag
    assume "tag \<in> set (case a_tags a of None \<Rightarrow> [] | Some ts \<Rightarrow> ts)"
    then have "tag \<in> set (map (\<lambda>t. take 20 (str_strip (str_strip_chars [CHR 0x22] t)))
        (filter (\<lambda>t. str_strip (str_strip_chars [CHR 0x22] t) \<noteq> [])
           (case i_tags item of None \<Rightarrow> [] | Some ts \<Rightarrow> ts)))"
      unfolding e by (simp split: if_splits)
    then show "tag \<noteq> [] \<and> length tag \<le> 20 \<and> \<not> is_space (hd tag)"
      by (rule clean_tags_props)
  qed
qed

lemma convert_item_tags_quotes_outside:
  assumes "convert_item item t = Inr a"
    and h: "\<forall>s \<in> set (case i_tags item of None \<Rightarrow> [] | Some ts \<Rightarrow> ts).
        \<exists>qs1 ws1 ws2 qs2.
          s = qs1 @ ws1 @ str_strip_chars (CHR 0x22 # whitespace) s @ ws2 @ qs2 \<and>
          set qs1 \<subseteq> {CHR 0x22} \<and> set ws1 \<subseteq> set whitespace \<and>
          set ws2 \<subseteq> set whitespace \<and> set qs2 \<subseteq> {CHR 0x22}"
  shows "a_tags a =
    (if map (\<lambda>s. take 20 (str_strip_chars (CHR 0x22 # whitespace) s))
          (filter (\<lambda>s. str_strip_chars (CHR 0x22 # whitespace) s \<noteq> [])
             (case i_tags item of None \<Rightarrow> [] | Some ts \<Rightarrow> ts)) = []
     then None
     else Some (map (\<lambda>s. take 20 (str_strip_chars (CHR 0x22 # whitespace) s))
          (filter (\<lambda>s. str_strip_chars (CHR 0x22 # whitespace) s \<noteq> [])
             (case i_tags item of None \<Rightarrow> [] | Some ts \<Rightarrow> ts))))"
proof -
  let ?src = "case i_tags item of None \<Rightarrow> [] | Some ts \<Rightarrow> ts"
  have same: "str_strip (str_strip_chars [CHR 0x22] s) = str_strip_chars (CHR 0x22 # whitespace) s"
    if "s \<in> set ?src" for s
  proof -
    from h that have "\<exists>qs1 ws1 ws2 qs2.
        s = qs1 @ ws1 @ str_strip_chars (CHR 0x22 # whitespace) s @ ws2 @ qs2 \<and>
        set qs1 \<subseteq> {CHR 0x22} \<and> set ws1 \<subseteq> set whitespace \<and>
        set ws2 \<subseteq> set whitespace \<and> set qs2 \<subseteq> {CHR 0x22}"
      by (rule bspec)
    then obtain qs1 ws1 ws2 qs2
      where "s = qs1 @ ws1 @ str_strip_chars (CHR 0x22 # whitespace) s @ ws2 @ qs2"
        and "set qs1 \<subseteq> {CHR 0x22}" and "set ws1 \<subseteq> set whitespace"
        and "set ws2 \<subseteq> set whitespace" and "set qs2 \<subseteq> {CHR 0x22}"
      by (elim exE conjE)
    then have "clean_tag s = str_strip_chars (CHR 0x22 # whitespace) s"
      by (intro clean_tag_quotes_outside)
    then show ?thesis
      unfolding clean_tag_def .
  qed
  have f: "filter (\<lambda>t. str_strip (str_strip_chars [CHR 0x22] t) \<noteq> []) ?src =
      filter (\<lambda>s. str_strip_chars (CHR 0x22 # whitespace) s \<noteq> []) ?src"
    by (rule filter_cong [OF refl]) (simp add: same)
  have m: "map (\<lambda>t. take 20 (str_strip (str_strip_chars [CHR 0x22] t)))
        (filter (\<lambda>s. str_strip_chars (CHR 0x22 # whitespace) s \<noteq> []) ?src) =
      map (\<lambda>s. take 20 (str_strip_chars (CHR 0x22 # whitespace) s))
        (filter (\<lambda>s. str_strip_chars (CHR 0x22 # whitespace) s \<noteq> []) ?src)"
    by (rule map_cong [OF refl]) (simp add: same)
  show ?thesis
    using convert_item_tags [OF assms(1)] unfolding f m .
qed

lemma convert_item_v2_tags_bounds:
  assumes "convert_item_v2 item t = Inr a"
  shows "let kept =
             map (take 20)
               (filter (\<lambda>t. str_strip t \<noteq> [])
                  (case i_tags item of None \<Rightarrow> [] | Some ts \<Rightarrow> ts))
       in a_tags a = Some (if kept = [] then [''faith''] else kept) \<and>
          (\<forall>tag \<in> set kept. tag \<noteq> [] \<and> length tag \<le> 20)"
  unfolding Let_def
  using convert_item_v2_tags [OF assms] kept_tags_v2_props by blast

text \<open>
  C7, as stated: neither converter returns \<open>["sports", "a-very-long-tag-name-ex"]\<close> on
  the tag list of Scenario C. The expected second tag has 23 characters, and both
  converters cut every tag to 20. The first converter returns
  \<open>['"sports"', '"a-very-long-tag-nam']\<close>; the second, which strips nothing, returns
  \<open>[' "sports" ', '  "a-very-long-tag-n']\<close>.
\<close>

theorem scenario_C_tags_counterexample:
  "convert_item item_C ''movie'' = Inr (projr (convert_item item_C ''movie'')) \<and>
   a_tags (projr (convert_item item_C ''movie'')) =
     Some [[CHR 0x22] @ ''sports'' @ [CHR 0x22], [CHR 0x22] @ ''a-very-long-tag-nam''] \<and>
   a_tags (projr (convert_item item_C ''movie'')) \<noteq>
     Some [''sports'', ''a-very-long-tag-name-ex''] \<and>
   length ''a-very-long-tag-name-ex'' = 23 \<and>
   length ([CHR 0x22] @ ''a-very-long-tag-nam'') = 20 \<and>
   convert_item_v2 item_C ''movie'' = Inr (projr (convert_item_v2 item_C ''movie'')) \<and>
   a_tags (projr (convert_item_v2 item_C ''movie'')) =
     Some [[CHR 0x20, CHR 0x22] @ ''sports'' @ [CHR 0x22, CHR 0x20],
           [CHR 0x20, CHR 0x20, CHR 0x22] @ ''a-very-long-tag-n''] \<and>
   a_tags (projr (convert_item_v2 item_C ''movie'')) \<noteq>
     Some [''sports'', ''a-very-long-tag-name-ex'']"
proof -
  have i: "i_id item_C = Some ''abc123''"
    by (simp add: item_C_def item_B_def)
  have t1: "a_tags (projr (convert_item item_C ''movie'')) =
      Some [[CHR 0x22] @ ''sports'' @ [CHR 0x22], [CHR 0x22] @ ''a-very-long-tag-nam'']"
    by code_simp
  have t2: "a_tags (projr (convert_item_v2 item_C ''movie'')) =
      Some [[CHR 0x20, CHR 0x22] @ ''sports'' @ [CHR 0x22, CHR 0x20],
            [CHR 0x20, CHR 0x20, CHR 0x22] @ ''a-very-long-tag-n'']"
    by code_simp
  have n1: "a_tags (projr (convert_item item_C ''movie'')) \<noteq>
      Some [''sports'', ''a-very-long-tag-name-ex'']"
    unfolding t1 by simp
  have n2: "a_tags (projr (convert_item_v2 item_C ''movie'')) \<noteq>
      Some [''sports'', ''a-very-long-tag-name-ex'']"
    unfolding t2 by simp
  have l: "length ''a-very-long-tag-name-ex'' = 23"
    by simp
  have l': "length ([CHR 0x22] @ ''a-very-long-tag-nam'') = 20"
    by simp
  show ?thesis
    by (intro conjI convert_item_returns [OF i] convert_item_v2_returns [OF i] t1 t2 n1 n2 l l')
qed

text \<open>
  C7, amended. In the first converter every output tag is non-empty, at most 20
  characters long and does not begin with whitespace, and the asset has no tags
  when no tag is left. When the quote characters of every source tag lie outside
  its surrounding whitespace (the tag is a run of double quotes, a run of
  whitespace, the tag with all its surrounding quotes and whitespace stripped, a
  run of whitespace and a run of double quotes), each output tag is the source tag
  with its surrounding quote characters and whitespace stripped, cut to its first
  20 characters; the tags that become empty are dropped and the order is kept.
  What the first converter returns for a tag with a quote inside its surrounding
  whitespace, as in Scenario C, is left open. On the tag list
  \<open>['" sports "', '', '"a-very-long-tag-name-exceeding-twenty"']\<close> it returns
  \<open>["sports", "a-very-long-tag-name"]\<close>. In the second converter no tag is stripped:
  the tags that are not empty or all whitespace are cut to their first 20
  characters, and when none is left the tags are \<open>["faith"]\<close>.
\<close>

theorem tags_cleaned:
  "(convert_item item t = Inr a \<longrightarrow>
      a_tags a \<noteq> Some [] \<and>
      (\<forall>tag \<in> set (case a_tags a of None \<Rightarrow> [] | Some ts \<Rightarrow> ts).
         tag \<noteq> [] \<and> length tag \<le> 20 \<and> \<not> is_space (hd tag)) \<and>
      ((\<forall>s \<in> set (case i_tags item of None \<Rightarrow> [] | Some ts \<Rightarrow> ts).
          \<exists>qs1 ws1 ws2 qs2.
            s = qs1 @ ws1 @ str_strip_chars (CHR 0x22 # whitespace) s @ ws2 @ qs2 \<and>
            set qs1 \<subseteq> {CHR 0x22} \<and> set ws1 \<subseteq> set whitespace \<and>
            set ws2 \<subseteq> set whitespace \<and> set qs2 \<subseteq> {CHR 0x22}) \<longrightarrow>
       a_tags a =
         (if map (\<lambda>s. take 20 (str_strip_chars (CHR 0x22 # whitespace) s))
               (filter (\<lambda>s. str_strip_chars (CHR 0x22 # whitespace) s \<noteq> [])
                  (case i_tags item of None \<Rightarrow> [] | Some ts \<Rightarrow> ts)) = []
          then None
          else Some (map (\<lambda>s. take 20 (str_strip_chars (CHR 0x22 # whitespace) s))
               (filter (\<lambda>s. str_strip_chars (CHR 0x22 # whitespace) s \<noteq> [])
                  (case i_tags item of None \<Rightarrow> [] | Some ts \<Rightarrow> ts)))))) \<and>
   (convert_item_v2 item t = Inr a \<longrightarrow>
      (let kept =
             map (take 20)
               (filter (\<lambda>t. str_strip t \<noteq> [])
                  (case i_tags item of None \<Rightarrow> [] | Some ts \<Rightarrow> ts))
       in a_tags a = Some (if kept = [] then [''faith''] else kept) \<and>
          (\<forall>tag \<in> set kept. tag \<noteq> [] \<and> length tag \<le> 20)))"
  by (intro conjI impI convert_item_tags_bounds convert_item_tags_quotes_outside
      convert_item_v2_tags_bounds)

theorem tags_cleaned_witness:
  "convert_item item_Q ''movie'' = Inr (projr (convert_item item_Q ''movie'')) \<and>
   i_tags item_Q = Some tags_Q \<and> tags_Q = [tag_sports, [], tag_long] \<and>
   tag_sports = [CHR 0x22] @ [CHR 0x20] @ ''sports'' @ [CHR 0x20] @ [CHR 0x22] \<and>
   str_strip_chars (CHR 0x22 # whitespace) tag_sports = ''sports'' \<and>
   tag_long = [CHR 0x22] @ [] @ ''a-very-long-tag-name-exceeding-twenty'' @ [] @ [CHR 0x22] \<and>
   str_strip_chars (CHR 0x22 # whitespace) tag_long = ''a-very-long-tag-name-exceeding-twenty'' \<and>
   str_strip_chars (CHR 0x22 # whitespace) [] = [] \<and>
   CHR 0x20 \<in> set whitespace \<and>
   a_tags (projr (convert_item item_Q ''movie'')) = Some [''sports'', ''a-very-long-tag-name''] \<and>
   list_all (\<lambda>tag. tag \<noteq> [] \<and> length tag \<le> 20 \<and> \<not> is_space (hd tag))
     [''sports'', ''a-very-long-tag-name''] \<and>
   convert_item_v2 item_Q ''movie'' = Inr (projr (convert_item_v2 item_Q ''movie'')) \<and>
   map (take 20) (filter (\<lambda>t. str_strip t \<noteq> []) tags_Q) =
     [tag_sports, [CHR 0x22] @ ''a-very-long-tag-nam''] \<and>
   a_tags (projr (convert_item_v2 item_Q ''movie'')) =
     Some [tag_sports, [CHR 0x22] @ ''a-very-long-tag-nam''] \<and>
   list_all (\<lambda>tag. tag \<noteq> [] \<and> length tag \<le> 20)
     [tag_sports, [CHR 0x22] @ ''a-very-long-tag-nam'']"
proof -
  let ?both = "str_strip_chars (CHR 0x22 # whitespace)"
  have i: "i_id item_Q = Some ''abc123''"
    by (simp add: item_Q_def item_B_def)
  have tg: "i_tags item_Q = Some tags_Q"
    by (simp add: item_Q_def)
  have r1: "convert_item item_Q ''movie'' = Inr (projr (convert_item item_Q ''movie''))"
    by (rule convert_item_returns [OF i])
  have r2: "convert_item_v2 item_Q ''movie'' = Inr (projr (convert_item_v2 item_Q ''movie''))"
    by (rule convert_item_v2_returns [OF i])
  have d1: "tag_sports = [CHR 0x22] @ [CHR 0x20] @ ''sports'' @ [CHR 0x20] @ [CHR 0x22]"
    by (simp add: tag_sports_def)
  have b1: "?both tag_sports = ''sports''"
    by code_simp
  have d3: "tag_long =
      [CHR 0x22] @ [] @ ''a-very-long-tag-name-exceeding-twenty'' @ [] @ [CHR 0x22]"
    by (simp add: tag_long_def)
  have b3: "?both tag_long = ''a-very-long-tag-name-exceeding-twenty''"
    by code_simp
  have b2: "?both [] = []"
    by (simp add: str_strip_chars_def)
  have d2: "[] = [] @ [] @ ([]::string) @ [] @ []"
    by simp
  have sp: "CHR 0x20 \<in> set whitespace"
    by (simp add: whitespace_def)
  have q: "set [CHR 0x22] \<subseteq> {CHR 0x22}" and w: "set [CHR 0x20] \<subseteq> set whitespace"
    and n: "set ([]::string) \<subseteq> set whitespace" and n': "set [] \<subseteq> {CHR 0x22}"
    using sp by simp_all
  have h1: "\<exists>qs1 ws1 ws2 qs2.
      tag_sports = qs1 @ ws1 @ ?both tag_sports @ ws2 @ qs2 \<and>
      set qs1 \<subseteq> {CHR 0x22} \<and> set ws1 \<subseteq> set whitespace \<and>
      set ws2 \<subseteq> set whitespace \<and> set qs2 \<subseteq> {CHR 0x22}"
    by (rule exI [of _ "[CHR 0x22]"], rule exI [of _ "[CHR 0x20]"],
        rule exI [of _ "[CHR 0x20]"], rule exI [of _ "[CHR 0x22]"], unfold b1)
      (intro conjI d1 q w)
  have h2: "\<exists>qs1 ws1 ws2 qs2.
      [] = qs1 @ ws1 @ ?both [] @ ws2 @ qs2 \<and>
      set qs1 \<subseteq> {CHR 0x22} \<and> set ws1 \<subseteq> set whitespace \<and>
      set ws2 \<subseteq> set whitespace \<and> set qs2 \<subseteq> {CHR 0x22}"
    by (rule exI [of _ "[]"], rule exI [of _ "[]"], rule exI [of _ "[]"],
        rule exI [of _ "[]"], unfold b2)
      (intro conjI d2 n n')
  have h3: "\<exists>qs1 ws1 ws2 qs2.
      tag_long = qs1 @ ws1 @ ?both tag_long @ ws2 @ qs2 \<and>
      set qs1 \<subseteq> {CHR 0x22} \<and> set ws1 \<subseteq> set whitespace \<and>
      set ws2 \<subseteq> set whitespace \<and> set qs2 \<subseteq> {CHR 0x22}"
    by (rule exI [of _ "[CHR 0x22]"], rule exI [of _ "[]"], rule exI [of _ "[]"],
        rule exI [of _ "[CHR 0x22]"], unfold b3)
      (intro conjI d3 q n)
  have h: "\<forall>s \<in> set (case i_tags item_Q of None \<Rightarrow> [] | Some ts \<Rightarrow> ts).
      \<exists>qs1 ws1 ws2 qs2.
        s = qs1 @ ws1 @ ?both s @ ws2 @ qs2 \<and>
        set qs1 \<subseteq> {CHR 0x22} \<and> set ws1 \<subseteq> set whitespace \<and>
        set ws2 \<subseteq> set whitespace \<and> set qs2 \<subseteq> {CHR 0x22}"
    unfolding tg option.case tags_Q_def
  proof
    fix s
    assume "s \<in> set [tag_sports, [], tag_long]"
    then consider "s = tag_sports" | "s = []" | "s = tag_long"
      by auto
    then show "\<exists>qs1 ws1 ws2 qs2.
        s = qs1 @ ws1 @ ?both s @ ws2 @ qs2 \<and>
        set qs1 \<subseteq> {CHR 0x22} \<and> set ws1 \<subseteq> set whitespace \<and>
        set ws2 \<subseteq> set whitespace \<and> set qs2 \<subseteq> {CHR 0x22}"
    proof cases
      case 1
      show ?thesis unfolding 1 by (rule h1)
    next
      case 2
      show ?thesis unfolding 2 by (rule h2)
    next
      case 3
      show ?thesis unfolding 3 by (rule h3)
    qed
  qed
  have c1: "map (\<lambda>s. take 20 (?both s)) (filter (\<lambda>s. ?both s \<noteq> []) tags_Q) =
      [''sports'', ''a-very-long-tag-name'']"
    by code_simp
  have c2: "map (take 20) (filter (\<lambda>t. str_strip t \<noteq> []) tags_Q) =
      [tag_sports, [CHR 0x22] @ ''a-very-long-tag-nam'']"
    by code_simp
  have p1: "list_all (\<lambda>tag. tag \<noteq> [] \<and> length tag \<le> 20 \<and> \<not> is_space (hd tag))
      [''sports'', ''a-very-long-tag-name'']"
    by code_simp
  have p2: "list_all (\<lambda>tag. tag \<noteq> [] \<and> length tag \<le> 20)
      [tag_sports, [CHR 0x22] @ ''a-very-long-tag-nam'']"
    by code_simp
  note th1 = mp [OF tags_cleaned [where item = item_Q and t = "''movie''"
      and a = "projr (convert_item item_Q ''movie'')", THEN conjunct1] r1]
  note th2 = mp [OF tags_cleaned [where item = item_Q and t = "''movie''"
      and a = "projr (convert_item_v2 item_Q ''movie'')", THEN conjunct2] r2,
      unfolded Let_def tg option.case c2]
  have a1: "a_tags (projr (convert_item item_Q ''movie'')) =
      Some [''sports'', ''a-very-long-tag-name'']"
    using mp [OF th1 [THEN conjunct2, THEN conjunct2] h]
    unfolding tg option.case c1 by simp
  have a2: "a_tags (projr (convert_item_v2 item_Q ''movie'')) =
      Some [tag_sports, [CHR 0x22] @ ''a-very-long-tag-nam'']"
    using th2 by simp
  show ?thesis
    by (intro conjI r1 r2 tg tags_Q_def d1 b1 d3 b3 b2 sp c2 p1 p2 a1 a2)
qed

section \<open>Play options\<close>

lemma str_contains_sublist: "str_contains sub s = sublist sub s"
  by (induction s) (simp_all add: sublist_Cons_right)

lemma split_from_nonempty: "split_from sep cur s \<noteq> []"
  by (induction sep cur s rule: split_from.induct) auto

lemma split_from_no_sep: "\<not> str_contains sep s \<Longrightarrow> split_from sep cur s = [cur @ s]"
  by (induction s arbitrary: cur) auto

lemma prefix_drop_rest:
  assumes "sep \<noteq> []" and "prefix sep (c # cs)"
  shows "c # cs = sep @ drop (length sep - 1) cs"
proof -
  from assms(2) obtain r where r: "c # cs = sep @ r"
    by (auto simp: prefix_def)
  with assms(1) obtain sep' where sep: "sep = c # sep'"
    by (cases sep) auto
  with r have "cs = sep' @ r"
    by simp
  then show ?thesis
    using r sep by simp
qed

lemma split_from_last_after:
  "sep \<noteq> [] \<Longrightarrow> str_contains sep s \<Longrightarrow>
   (\<exists>pre. s = pre @ sep @ last (split_from sep cur s)) \<and>
   \<not> str_contains sep (last (split_from sep cur s))"
proof (induction sep cur s rule: split_from.induct)
  case (1 sep cur)
  then show ?case by simp
next
  case (2 sep cur c cs)
  show ?case
  proof (cases "prefix sep (c # cs)")
    case True
    let ?rest = "drop (length sep - 1) cs"
    have eq: "c # cs = sep @ ?rest"
      using prefix_drop_rest [OF "2.prems"(1) True] .
    have l: "last (split_from sep cur (c # cs)) = last (split_from sep [] ?rest)"
      using True "2.prems"(1) by (simp add: split_from_nonempty)
    show ?thesis
    proof (cases "str_contains sep ?rest")
      case c: True
      with "2.IH"(1) "2.prems"(1) True
      obtain pre where pre: "?rest = pre @ sep @ last (split_from sep [] ?rest)"
        and n: "\<not> str_contains sep (last (split_from sep [] ?rest))"
        by blast
      have "c # cs = (sep @ pre) @ sep @ last (split_from sep [] ?rest)"
        using eq pre by simp
      then show ?thesis
        using n unfolding l by blast
    next
      case False
      then have "last (split_from sep [] ?rest) = ?rest"
        by (simp add: split_from_no_sep)
      then show ?thesis
        using eq False unfolding l by (metis append_Nil)
    qed
  next
    case False
    with "2.prems" have c: "str_contains sep cs"
      by simp
    have l: "last (split_from sep cur (c # cs)) = last (split_from sep (cur @ [c]) cs)"
      using False by simp
    from "2.IH"(2) False "2.prems"(1) c
    obtain pre where pre: "cs = pre @ sep @ last (split_from sep (cur @ [c]) cs)"
      and n: "\<not> str_contains sep (last (split_from sep (cur @ [c]) cs))"
      by blast
    have "c # cs = (c # pre) @ sep @ last (split_from sep (cur @ [c]) cs)"
      using pre by simp
    then show ?thesis
      using n unfolding l by blast
  qed
qed

lemma quality_map_lower:
  "dict_get (quality_map q) ''hd'' =
     (if q \<in> set [''HD'', ''SD'', ''UHD'', ''FHD''] then str_lower q else ''hd'')"
  by (auto simp: quality_map_def dict_get_def str_lower_def str_lower_char_def)

lemma play_prefix_iff:
  "prefix ''/play/'' (c # cs) \<and> takeWhile is_digit (drop 5 cs) \<noteq> [] \<longleftrightarrow>
   (\<exists>d rest. c # cs = ''/play/'' @ d # rest \<and> is_digit d)"
proof
  assume a: "prefix ''/play/'' (c # cs) \<and> takeWhile is_digit (drop 5 cs) \<noteq> []"
  then obtain r where r: "c # cs = ''/play/'' @ r"
    unfolding prefix_def by blast
  then have d: "drop 5 cs = r"
    by auto
  with a have "takeWhile is_digit r \<noteq> []"
    by blast
  then obtain d rest where "r = d # rest" and "is_digit d"
    by (cases r) (auto split: if_splits)
  with r show "\<exists>d rest. c # cs = ''/play/'' @ d # rest \<and> is_digit d"
    by blast
next
  assume "\<exists>d rest. c # cs = ''/play/'' @ d # rest \<and> is_digit d"
  then obtain d rest where e: "c # cs = ''/play/'' @ d # rest" and d: "is_digit d"
    by blast
  from e have "drop 5 cs = d # rest"
    by auto
  with d have "takeWhile is_digit (drop 5 cs) \<noteq> []"
    by simp
  moreover from e have "prefix ''/play/'' (c # cs)"
    unfolding prefix_def by blast
  ultimately show "prefix ''/play/'' (c # cs) \<and> takeWhile is_digit (drop 5 cs) \<noteq> []"
    by blast
qed

lemma play_match_Cons:
  "(\<exists>pre d rest. c # cs = pre @ ''/play/'' @ d # rest \<and> is_digit d) \<longleftrightarrow>
   (\<exists>d rest. c # cs = ''/play/'' @ d # rest \<and> is_digit d) \<or>
   (\<exists>pre d rest. cs = pre @ ''/play/'' @ d # rest \<and> is_digit d)"
proof
  assume "\<exists>pre d rest. c # cs = pre @ ''/play/'' @ d # rest \<and> is_digit d"
  then obtain pre d rest where e: "c # cs = pre @ ''/play/'' @ d # rest" and d: "is_digit d"
    by blast
  show "(\<exists>d rest. c # cs = ''/play/'' @ d # rest \<and> is_digit d) \<or>
      (\<exists>pre d rest. cs = pre @ ''/play/'' @ d # rest \<and> is_digit d)"
  proof (cases pre)
    case Nil
    with e have "c # cs = ''/play/'' @ d # rest"
      by simp
    with d show ?thesis
      by blast
  next
    case (Cons x pre')
    with e have "cs = pre' @ ''/play/'' @ d # rest"
      by simp
    with d show ?thesis
      by blast
  qed
next
  assume "(\<exists>d rest. c # cs = ''/play/'' @ d # rest \<and> is_digit d) \<or>
      (\<exists>pre d rest. cs = pre @ ''/play/'' @ d # rest \<and> is_digit d)"
  then show "\<exists>pre d rest. c # cs = pre @ ''/play/'' @ d # rest \<and> is_digit d"
  proof
    assume "\<exists>d rest. c # cs = ''/play/'' @ d # rest \<and> is_digit d"
    then obtain d rest where "c # cs = [] @ ''/play/'' @ d # rest" and "is_digit d"
      by auto
    then show ?thesis
      by blast
  next
    assume "\<exists>pre d rest. cs = pre @ ''/play/'' @ d # rest \<and> is_digit d"
    then obtain pre d rest where "cs = pre @ ''/play/'' @ d # rest" and d: "is_digit d"
      by blast
    then have "c # cs = (c # pre) @ ''/play/'' @ d # rest"
      by simp
    with d show ?thesis
      by blast
  qed
qed

lemma search_play_digits_None:
  "search_play_digits url = None \<longleftrightarrow>
   \<not> (\<exists>pre d rest. url = pre @ ''/play/'' @ d # rest \<and> is_digit d)"
proof (induction url)
  case Nil
  then show ?case by simp
next
  case (Cons c cs)
  show ?case
  proof (cases "prefix ''/play/'' (c # cs) \<and> takeWhile is_digit (drop 5 cs) \<noteq> []")
    case True
    have "search_play_digits (c # cs) = Some (takeWhile is_digit (drop 5 cs))"
      by (subst search_play_digits.simps) (rule if_P [OF True])
    moreover have "\<exists>pre d rest. c # cs = pre @ ''/play/'' @ d # rest \<and> is_digit d"
      using True play_prefix_iff [of c cs] play_match_Cons [of c cs] by blast
    ultimately show ?thesis
      by simp
  next
    case False
    have "search_play_digits (c # cs) = search_play_digits cs"
      by (subst search_play_digits.simps) (rule if_not_P [OF False])
    moreover have "(\<exists>pre d rest. c # cs = pre @ ''/play/'' @ d # rest \<and> is_digit d) \<longleftrightarrow>
        (\<exists>pre d rest. cs = pre @ ''/play/'' @ d # rest \<and> is_digit d)"
      using False play_prefix_iff [of c cs] play_match_Cons [of c cs] by blast
    ultimately show ?thesis
      using Cons.IH by simp
  qed
qed

lemma search_play_digits_Some:
  "search_play_digits url = Some ds \<Longrightarrow>
   ds \<noteq> [] \<and> list_all is_digit ds \<and>
   (\<exists>pre rest. url = pre @ ''/play/'' @ ds @ rest \<and> (rest = [] \<or> \<not> is_digit (hd rest)) \<and>
      \<not> (\<exists>pre' d rest'. pre @ ''/play/'' = pre' @ ''/play/'' @ d # rest' \<and> is_digit d))"
proof (induction url)
  case Nil
  then show ?case by simp
next
  case (Cons c cs)
  show ?case
  proof (cases "prefix ''/play/'' (c # cs) \<and> takeWhile is_digit (drop 5 cs) \<noteq> []")
    case True
    have hit: "search_play_digits (c # cs) = Some (takeWhile is_digit (drop 5 cs))"
      by (subst search_play_digits.simps) (rule if_P [OF True])
    have ds: "ds = takeWhile is_digit (drop 5 cs)"
      using Cons.prems unfolding hit by simp
    from True obtain r where r: "c # cs = ''/play/'' @ r"
      unfolding prefix_def by (elim conjE exE)
    then have "drop 5 cs = r"
      by auto
    with ds have ds': "ds = takeWhile is_digit r"
      by simp
    let ?rest = "dropWhile is_digit r"
    have tail: "?rest = [] \<or> \<not> is_digit (hd ?rest)"
      using hd_dropWhile [of is_digit r] by (cases "?rest = []") simp_all
    have none: "\<not> (\<exists>pre' d rest'. [] @ ''/play/'' = pre' @ ''/play/'' @ d # rest' \<and> is_digit d)"
    proof
      assume "\<exists>pre' d rest'. [] @ ''/play/'' = pre' @ ''/play/'' @ d # rest' \<and> is_digit d"
      then obtain pre' d rest' where "[] @ ''/play/'' = pre' @ ''/play/'' @ d # rest'"
        by (elim conjE exE)
      then have "length ([] @ ''/play/'') = length (pre' @ ''/play/'' @ d # rest')"
        by (rule arg_cong)
      then show False
        by simp
    qed
    have "''/play/'' @ r = [] @ ''/play/'' @ ds @ ?rest"
      unfolding ds' by simp
    then have e: "c # cs = [] @ ''/play/'' @ ds @ ?rest"
      unfolding r .
    have ex: "\<exists>pre rest. c # cs = pre @ ''/play/'' @ ds @ rest \<and>
        (rest = [] \<or> \<not> is_digit (hd rest)) \<and>
        \<not> (\<exists>pre' d rest'. pre @ ''/play/'' = pre' @ ''/play/'' @ d # rest' \<and> is_digit d)"
      by (rule exI [of _ "[]"], rule exI [of _ ?rest]) (intro conjI e tail none)
    have ne: "ds \<noteq> []"
      using True unfolding ds by (rule conjunct2)
    have dg: "list_all is_digit ds"
      unfolding ds' list_all_iff using set_takeWhileD by fast
    show ?thesis
      by (intro conjI ne dg ex)
  next
    case False
    have miss: "search_play_digits (c # cs) = search_play_digits cs"
      by (subst search_play_digits.simps) (rule if_not_P [OF False])
    have "search_play_digits cs = Some ds"
      using Cons.prems unfolding miss .
    note ih = Cons.IH [OF this]
    have ne: "ds \<noteq> []"
      using ih by (rule conjunct1)
    have dg: "list_all is_digit ds"
      using ih [THEN conjunct2] by (rule conjunct1)
    from ih [THEN conjunct2, THEN conjunct2]
    obtain pre rest where e: "cs = pre @ ''/play/'' @ ds @ rest"
      and t: "rest = [] \<or> \<not> is_digit (hd rest)"
      and n: "\<not> (\<exists>pre' d rest'. pre @ ''/play/'' = pre' @ ''/play/'' @ d # rest' \<and> is_digit d)"
      by (elim conjE exE)
    have nohead: "\<not> (\<exists>d rest. c # cs = ''/play/'' @ d # rest \<and> is_digit d)"
      using False unfolding play_prefix_iff .
    have n': "\<not> (\<exists>pre' d rest'. (c # pre) @ ''/play/'' = pre' @ ''/play/'' @ d # rest' \<and>
        is_digit d)"
    proof
      assume "\<exists>pre' d rest'. (c # pre) @ ''/play/'' = pre' @ ''/play/'' @ d # rest' \<and> is_digit d"
      then have "\<exists>pre' d rest'. c # (pre @ ''/play/'') = pre' @ ''/play/'' @ d # rest' \<and> is_digit d"
        unfolding append_Cons .
      then have "(\<exists>d rest'. c # (pre @ ''/play/'') = ''/play/'' @ d # rest' \<and> is_digit d) \<or>
          (\<exists>pre' d rest'. pre @ ''/play/'' = pre' @ ''/play/'' @ d # rest' \<and> is_digit d)"
        unfolding play_match_Cons [of c "pre @ ''/play/''"] .
      with n have "\<exists>d rest'. c # (pre @ ''/play/'') = ''/play/'' @ d # rest' \<and> is_digit d"
        by (elim disjE) (assumption, erule notE)
      then obtain d rest' where h: "c # (pre @ ''/play/'') = ''/play/'' @ d # rest'"
        and d: "is_digit d"
        by (elim conjE exE)
      have "c # cs = (c # (pre @ ''/play/'')) @ ds @ rest"
        unfolding e by simp
      then have "c # cs = ''/play/'' @ d # (rest' @ ds @ rest)"
        unfolding h by simp
      then have "\<exists>d rest. c # cs = ''/play/'' @ d # rest \<and> is_digit d"
        using d by (intro exI conjI)
      with nohead show False
        by (rule notE)
    qed
    have e': "c # cs = (c # pre) @ ''/play/'' @ ds @ rest"
      unfolding e by simp
    have ex: "\<exists>pre rest. c # cs = pre @ ''/play/'' @ ds @ rest \<and>
        (rest = [] \<or> \<not> is_digit (hd rest)) \<and>
        \<not> (\<exists>pre' d rest'. pre @ ''/play/'' = pre' @ ''/play/'' @ d # rest' \<and> is_digit d)"
      by (rule exI [of _ "c # pre"], rule exI [of _ rest]) (intro conjI e' t n')
    show ?thesis
      by (intro conjI ne dg ex)
  qed
qed

lemma play_option_of_props:
  "po_license (play_option_of i vid) = ''free''"
  "po_quality (play_option_of i vid) =
     (if str_upper (case v_quality vid of None \<Rightarrow> ''HD'' | Some q \<Rightarrow> q) \<in>
           set [''HD'', ''SD'', ''UHD'', ''FHD'']
      then str_lower (str_upper (case v_quality vid of None \<Rightarrow> ''HD'' | Some q \<Rightarrow> q))
      else ''hd'')"
  "sublist ''/play/'' (case v_url vid of None \<Rightarrow> [] | Some u \<Rightarrow> u) \<Longrightarrow>
     (\<exists>pre. (case v_url vid of None \<Rightarrow> [] | Some u \<Rightarrow> u) =
        pre @ ''/play/'' @ po_playId (play_option_of i vid)) \<and>
     \<not> sublist ''/play/'' (po_playId (play_option_of i vid))"
  "\<not> sublist ''/play/'' (case v_url vid of None \<Rightarrow> [] | Some u \<Rightarrow> u) \<Longrightarrow>
     po_playId (play_option_of i vid) = i"
proof -
  let ?url = "case v_url vid of None \<Rightarrow> [] | Some u \<Rightarrow> u"
  have url: "dict_get (v_url vid) [] = ?url"
    by (simp add: dict_get_def)
  have q: "dict_get (v_quality vid) ''HD'' = (case v_quality vid of None \<Rightarrow> ''HD'' | Some q \<Rightarrow> q)"
    by (simp add: dict_get_def)
  show "po_license (play_option_of i vid) = ''free''"
    by (simp add: play_option_of_def Let_def)
  show "po_quality (play_option_of i vid) =
     (if str_upper (case v_quality vid of None \<Rightarrow> ''HD'' | Some q \<Rightarrow> q) \<in>
           set [''HD'', ''SD'', ''UHD'', ''FHD'']
      then str_lower (str_upper (case v_quality vid of None \<Rightarrow> ''HD'' | Some q \<Rightarrow> q))
      else ''hd'')"
    unfolding play_option_of_def Let_def q by (simp only: play_option.simps quality_map_lower)
  have id: "po_playId (play_option_of i vid) =
      (if str_contains ''/play/'' ?url then last (str_split ''/play/'' ?url) else i)"
    unfolding play_option_of_def Let_def url by (simp only: play_option.simps)
  show "\<not> sublist ''/play/'' ?url \<Longrightarrow> po_playId (play_option_of i vid) = i"
    unfolding id str_contains_sublist by (rule if_not_P)
  assume s: "sublist ''/play/'' ?url"
  then have c: "str_contains ''/play/'' ?url"
    unfolding str_contains_sublist .
  have ne: "''/play/'' \<noteq> []"
    by simp
  have "po_playId (play_option_of i vid) = last (split_from ''/play/'' [] ?url)"
    unfolding id str_split_def using c by (rule if_P)
  then show "(\<exists>pre. ?url = pre @ ''/play/'' @ po_playId (play_option_of i vid)) \<and>
     \<not> sublist ''/play/'' (po_playId (play_option_of i vid))"
    using split_from_last_after [OF ne c, of "[]"] unfolding str_contains_sublist by simp
qed

lemma play_option_of_split:
  assumes "sublist ''/play/'' (case v_url vid of None \<Rightarrow> [] | Some u \<Rightarrow> u)"
  shows "po_playId (play_option_of i vid) =
    last (str_split ''/play/'' (case v_url vid of None \<Rightarrow> [] | Some u \<Rightarrow> u))"
proof -
  let ?url = "case v_url vid of None \<Rightarrow> [] | Some u \<Rightarrow> u"
  have url: "dict_get (v_url vid) [] = ?url"
    by (simp add: dict_get_def)
  have "po_playId (play_option_of i vid) =
      (if str_contains ''/play/'' ?url then last (str_split ''/play/'' ?url) else i)"
    unfolding play_option_of_def Let_def url by (simp only: play_option.simps)
  also have "\<dots> = last (str_split ''/play/'' ?url)"
    using assms unfolding str_contains_sublist by (rule if_P)
  finally show ?thesis .
qed

text \<open>
  \<open>str_split\<close> is a split: joining its pieces with the separator gives the string
  back, and its last piece holds no separator.
\<close>

lemma str_join_Cons: "xs \<noteq> [] \<Longrightarrow> str_join sep (x # xs) = x @ sep @ str_join sep xs"
  by (cases xs) simp_all

lemma split_from_join: "sep \<noteq> [] \<Longrightarrow> str_join sep (split_from sep cur s) = cur @ s"
proof (induction sep cur s rule: split_from.induct)
  case (1 sep cur)
  then show ?case by simp
next
  case (2 sep cur c cs)
  show ?case
  proof (cases "prefix sep (c # cs)")
    case True
    let ?rest = "drop (length sep - 1) cs"
    have eq: "c # cs = sep @ ?rest"
      using prefix_drop_rest [OF "2.prems" True] .
    have "split_from sep cur (c # cs) = cur # split_from sep [] ?rest"
      using True "2.prems" by simp
    then have "str_join sep (split_from sep cur (c # cs)) =
        cur @ sep @ str_join sep (split_from sep [] ?rest)"
      by (simp add: str_join_Cons split_from_nonempty)
    also have "str_join sep (split_from sep [] ?rest) = [] @ ?rest"
      using "2.IH"(1) "2.prems" True by blast
    finally show ?thesis
      using eq by simp
  next
    case False
    then have "split_from sep cur (c # cs) = split_from sep (cur @ [c]) cs"
      by simp
    then show ?thesis
      using "2.IH"(2) False "2.prems" by simp
  qed
qed

lemma str_split_join: "sep \<noteq> [] \<Longrightarrow> str_join sep (str_split sep s) = s"
  using split_from_join [of sep "[]" s] by (simp add: str_split_def)

lemma videos_of_item:
  "dict_get (c_videos (dict_get (i_content item) empty_content)) [] =
     (case i_content item of None \<Rightarrow> []
      | Some c \<Rightarrow> (case c_videos c of None \<Rightarrow> [] | Some vs \<Rightarrow> vs))"
  by (simp add: dict_get_def empty_content_def split: option.splits)

lemma convert_item_playOptions:
  assumes "convert_item item t = Inr a" and "i_id item = Some i"
    and "(case i_content item of None \<Rightarrow> []
          | Some c \<Rightarrow> (case c_videos c of None \<Rightarrow> [] | Some vs \<Rightarrow> vs)) = vs"
  shows "a_playOptions a =
    (if vs = [] then [\<lparr>po_license = ''free'', po_quality = ''hd'', po_playId = i\<rparr>]
     else map (play_option_of i) vs)"
proof -
  have "projr (convert_item item t) = a"
    using assms(1) by simp
  then show ?thesis
    using convert_item_fields(12) [OF assms(2), of t] unfolding videos_of_item assms(3) by simp
qed

lemma convert_item_v2_playOptions:
  assumes "convert_item_v2 item t = Inr a" and "i_id item = Some i"
    and "(case i_content item of None \<Rightarrow> []
          | Some c \<Rightarrow> (case c_videos c of None \<Rightarrow> [] | Some vs \<Rightarrow> vs)) = vs"
  shows "a_playOptions a =
    [\<lparr>po_license = ''free'', po_quality = ''hd'',
      po_playId =
        (case vs of [] \<Rightarrow> i
         | vid # _ \<Rightarrow>
             (case search_play_digits (case v_url vid of None \<Rightarrow> [] | Some u \<Rightarrow> u) of
                None \<Rightarrow> i | Some digits \<Rightarrow> digits))\<rparr>]"
proof -
  have "projr (convert_item_v2 item t) = a"
    using assms(1) by simp
  then show ?thesis
    using convert_item_v2_fields(12)
      [OF assms(2), of t, unfolded videos_of_item assms(3), unfolded dict_get_def]
    by simp
qed


lemma convert_item_play_option_nth:
  assumes "convert_item item t = Inr a" and "i_id item = Some i"
    and "(case i_content item of None \<Rightarrow> []
          | Some c \<Rightarrow> (case c_videos c of None \<Rightarrow> [] | Some vs \<Rightarrow> vs)) = vs"
    and "k < length vs"
  shows "a_playOptions a ! k = play_option_of i (vs ! k)"
proof -
  from assms(4) have "vs \<noteq> []"
    by auto
  then have "a_playOptions a = map (play_option_of i) vs"
    using convert_item_playOptions [OF assms(1-3)] by simp
  then show ?thesis
    using assms(4) by simp
qed

lemma convert_item_v2_play_id:
  assumes "convert_item_v2 item t = Inr a" and "i_id item = Some i"
    and "(case i_content item of None \<Rightarrow> []
          | Some c \<Rightarrow> (case c_videos c of None \<Rightarrow> [] | Some vs \<Rightarrow> vs)) = vs"
  shows "\<exists>pid. a_playOptions a = [\<lparr>po_license = ''free'', po_quality = ''hd'', po_playId = pid\<rparr>] \<and>
    (vs = [] \<longrightarrow> pid = i) \<and>
    (vs \<noteq> [] \<longrightarrow>
       ((\<exists>pre d rest. (case v_url (hd vs) of None \<Rightarrow> [] | Some u \<Rightarrow> u) =
            pre @ ''/play/'' @ d # rest \<and> is_digit d) \<longrightarrow>
          pid \<noteq> [] \<and> list_all is_digit pid \<and>
          (\<exists>pre rest. (case v_url (hd vs) of None \<Rightarrow> [] | Some u \<Rightarrow> u) =
               pre @ ''/play/'' @ pid @ rest \<and>
             (rest = [] \<or> \<not> is_digit (hd rest)) \<and>
             \<not> (\<exists>pre' d rest'. pre @ ''/play/'' = pre' @ ''/play/'' @ d # rest' \<and> is_digit d))) \<and>
       (\<not> (\<exists>pre d rest. (case v_url (hd vs) of None \<Rightarrow> [] | Some u \<Rightarrow> u) =
            pre @ ''/play/'' @ d # rest \<and> is_digit d) \<longrightarrow>
          pid = i))"
proof -
  let ?url = "case v_url (hd vs) of None \<Rightarrow> [] | Some u \<Rightarrow> u"
  let ?pid = "case vs of [] \<Rightarrow> i
    | vid # _ \<Rightarrow>
        (case search_play_digits (case v_url vid of None \<Rightarrow> [] | Some u \<Rightarrow> u) of
           None \<Rightarrow> i | Some digits \<Rightarrow> digits)"
  have po: "a_playOptions a = [\<lparr>po_license = ''free'', po_quality = ''hd'', po_playId = ?pid\<rparr>]"
    by (rule convert_item_v2_playOptions [OF assms])
  have e: "vs = [] \<longrightarrow> ?pid = i"
    by simp
  have pid: "vs \<noteq> [] \<Longrightarrow>
      ?pid = (case search_play_digits ?url of None \<Rightarrow> i | Some digits \<Rightarrow> digits)"
    by (cases vs) simp_all
  have hit: "vs \<noteq> [] \<longrightarrow>
      ((\<exists>pre d rest. ?url = pre @ ''/play/'' @ d # rest \<and> is_digit d) \<longrightarrow>
         ?pid \<noteq> [] \<and> list_all is_digit ?pid \<and>
         (\<exists>pre rest. ?url = pre @ ''/play/'' @ ?pid @ rest \<and>
            (rest = [] \<or> \<not> is_digit (hd rest)) \<and>
            \<not> (\<exists>pre' d rest'. pre @ ''/play/'' = pre' @ ''/play/'' @ d # rest' \<and> is_digit d))) \<and>
      (\<not> (\<exists>pre d rest. ?url = pre @ ''/play/'' @ d # rest \<and> is_digit d) \<longrightarrow> ?pid = i)"
  proof (intro impI conjI)
    assume ne: "vs \<noteq> []"
      and m: "\<exists>pre d rest. ?url = pre @ ''/play/'' @ d # rest \<and> is_digit d"
    from m have "search_play_digits ?url \<noteq> None"
      unfolding search_play_digits_None by simp
    then obtain ds where ds: "search_play_digits ?url = Some ds"
      by (cases "search_play_digits ?url") simp_all
    have p: "?pid = ds"
      unfolding pid [OF ne] ds by simp
    note s = search_play_digits_Some [OF ds]
    show "?pid \<noteq> []"
      unfolding p using s by (rule conjunct1)
    show "list_all is_digit ?pid"
      unfolding p using s [THEN conjunct2] by (rule conjunct1)
    show "\<exists>pre rest. ?url = pre @ ''/play/'' @ ?pid @ rest \<and>
        (rest = [] \<or> \<not> is_digit (hd rest)) \<and>
        \<not> (\<exists>pre' d rest'. pre @ ''/play/'' = pre' @ ''/play/'' @ d # rest' \<and> is_digit d)"
      unfolding p using s [THEN conjunct2] by (rule conjunct2)
  next
    assume ne: "vs \<noteq> []"
      and m: "\<not> (\<exists>pre d rest. ?url = pre @ ''/play/'' @ d # rest \<and> is_digit d)"
    then have "search_play_digits ?url = None"
      unfolding search_play_digits_None by simp
    then show "?pid = i"
      unfolding pid [OF ne] by simp
  qed
  show ?thesis
    by (rule exI [of _ ?pid]) (intro conjI po e hit)
qed

text \<open>
  C6, as stated: the second converter emits one play option whatever the number
  of videos, always of quality \<open>"hd"\<close>. For an item with two videos, the first of
  quality \<open>"Sd"\<close> with the url \<open>https://x/play/999\<close>, it returns the single play option
  \<open>{license: "free", quality: "hd", playId: "999"}\<close>.
\<close>

theorem one_play_option_counterexample:
  "convert_item_v2 item_A ''movie'' = Inr (projr (convert_item_v2 item_A ''movie'')) \<and>
   i_content item_A =
     Some \<lparr>c_videos = Some
         [\<lparr>v_url = Some ''https://x/play/999'', v_quality = Some ''Sd''\<rparr>,
          \<lparr>v_url = Some ''https://x/stream/7'', v_quality = Some ''4K''\<rparr>],
       c_duration = Some 1200\<rparr> \<and>
   a_playOptions (projr (convert_item_v2 item_A ''movie'')) =
     [\<lparr>po_license = ''free'', po_quality = ''hd'', po_playId = ''999''\<rparr>] \<and>
   length (a_playOptions (projr (convert_item_v2 item_A ''movie''))) \<noteq> 2 \<and>
   po_quality (hd (a_playOptions (projr (convert_item_v2 item_A ''movie'')))) \<noteq> ''sd''"
proof -
  have c: "i_content item_A =
     Some \<lparr>c_videos = Some
         [\<lparr>v_url = Some ''https://x/play/999'', v_quality = Some ''Sd''\<rparr>,
          \<lparr>v_url = Some ''https://x/stream/7'', v_quality = Some ''4K''\<rparr>],
       c_duration = Some 1200\<rparr>"
    by (simp add: item_A_def videos_A_def)
  have p: "a_playOptions (projr (convert_item_v2 item_A ''movie'')) =
     [\<lparr>po_license = ''free'', po_quality = ''hd'', po_playId = ''999''\<rparr>]"
    by code_simp
  have l: "length (a_playOptions (projr (convert_item_v2 item_A ''movie''))) \<noteq> 2"
    unfolding p by simp
  have q: "po_quality (hd (a_playOptions (projr (convert_item_v2 item_A ''movie'')))) \<noteq> ''sd''"
    unfolding p by simp
  show ?thesis
    by (intro conjI convert_item_v2_returns [OF item_A_id] c p l q)
qed

text \<open>
  C6, amended. The first converter emits one play option per source video entry,
  in order, and one synthetic play option (license \<open>"free"\<close>, quality \<open>"hd"\<close>, playId the
  item's id) when the video list is absent or empty. Each play option has the
  license \<open>"free"\<close>; its quality is the lowercase form of the upper-cased source
  quality (\<open>"HD"\<close> when absent) if that is one of \<open>HD\<close>, \<open>SD\<close>, \<open>UHD\<close>, \<open>FHD\<close>, and \<open>"hd"\<close>
  otherwise; its playId is the last piece of \<open>url.split("/play/")\<close> when the url
  contains \<open>"/play/"\<close> (it follows an occurrence of the marker and holds no further
  marker; for \<open>https://h/play/play/77\<close> it is \<open>play/77\<close>), and the item's id
  otherwise. The second converter emits exactly one play
  option, with license \<open>"free"\<close> and quality \<open>"hd"\<close>; its playId is the item's id, unless
  the url of the first video has a \<open>"/play/"\<close> followed by a digit: then it is the whole
  run of digits after the first such marker.
\<close>

theorem play_options_per_video:
  assumes "i_id item = Some i"
    and "(case i_content item of None \<Rightarrow> []
          | Some c \<Rightarrow> (case c_videos c of None \<Rightarrow> [] | Some vs \<Rightarrow> vs)) = vs"
  shows
    "(\<exists>a. convert_item item t = Inr a \<and>
        (vs = [] \<longrightarrow>
           a_playOptions a = [\<lparr>po_license = ''free'', po_quality = ''hd'', po_playId = i\<rparr>]) \<and>
        (vs \<noteq> [] \<longrightarrow> length (a_playOptions a) = length vs) \<and>
        (\<forall>k<length vs.
           po_license (a_playOptions a ! k) = ''free'' \<and>
           po_quality (a_playOptions a ! k) =
             (if str_upper (case v_quality (vs ! k) of None \<Rightarrow> ''HD'' | Some q \<Rightarrow> q) \<in>
                   set [''HD'', ''SD'', ''UHD'', ''FHD'']
              then str_lower (str_upper (case v_quality (vs ! k) of None \<Rightarrow> ''HD'' | Some q \<Rightarrow> q))
              else ''hd'') \<and>
           (sublist ''/play/'' (case v_url (vs ! k) of None \<Rightarrow> [] | Some u \<Rightarrow> u) \<longrightarrow>
              po_playId (a_playOptions a ! k) =
                last (str_split ''/play/'' (case v_url (vs ! k) of None \<Rightarrow> [] | Some u \<Rightarrow> u)) \<and>
              (\<exists>pre. (case v_url (vs ! k) of None \<Rightarrow> [] | Some u \<Rightarrow> u) =
                 pre @ ''/play/'' @ po_playId (a_playOptions a ! k)) \<and>
              \<not> sublist ''/play/'' (po_playId (a_playOptions a ! k))) \<and>
           (\<not> sublist ''/play/'' (case v_url (vs ! k) of None \<Rightarrow> [] | Some u \<Rightarrow> u) \<longrightarrow>
              po_playId (a_playOptions a ! k) = i))) \<and>
     (\<exists>a pid. convert_item_v2 item t = Inr a \<and>
        a_playOptions a = [\<lparr>po_license = ''free'', po_quality = ''hd'', po_playId = pid\<rparr>] \<and>
        (vs = [] \<longrightarrow> pid = i) \<and>
        (vs \<noteq> [] \<longrightarrow>
           ((\<exists>pre d rest. (case v_url (hd vs) of None \<Rightarrow> [] | Some u \<Rightarrow> u) =
                pre @ ''/play/'' @ d # rest \<and> is_digit d) \<longrightarrow>
              pid \<noteq> [] \<and> list_all is_digit pid \<and>
              (\<exists>pre rest. (case v_url (hd vs) of None \<Rightarrow> [] | Some u \<Rightarrow> u) =
                   pre @ ''/play/'' @ pid @ rest \<and>
                 (rest = [] \<or> \<not> is_digit (hd rest)) \<and>
                 \<not> (\<exists>pre' d rest'. pre @ ''/play/'' = pre' @ ''/play/'' @ d # rest' \<and>
                      is_digit d))) \<and>
           (\<not> (\<exists>pre d rest. (case v_url (hd vs) of None \<Rightarrow> [] | Some u \<Rightarrow> u) =
                pre @ ''/play/'' @ d # rest \<and> is_digit d) \<longrightarrow>
              pid = i)))"
proof (rule conjI)
  let ?a = "projr (convert_item item t)"
  have r: "convert_item item t = Inr ?a"
    by (rule convert_item_returns [OF assms(1)])
  note po = convert_item_playOptions [OF r assms]
  have none: "vs = [] \<longrightarrow>
      a_playOptions ?a = [\<lparr>po_license = ''free'', po_quality = ''hd'', po_playId = i\<rparr>]"
    using po by simp
  have len: "vs \<noteq> [] \<longrightarrow> length (a_playOptions ?a) = length vs"
    using po by simp
  have each: "\<forall>k<length vs.
      po_license (a_playOptions ?a ! k) = ''free'' \<and>
      po_quality (a_playOptions ?a ! k) =
        (if str_upper (case v_quality (vs ! k) of None \<Rightarrow> ''HD'' | Some q \<Rightarrow> q) \<in>
              set [''HD'', ''SD'', ''UHD'', ''FHD'']
         then str_lower (str_upper (case v_quality (vs ! k) of None \<Rightarrow> ''HD'' | Some q \<Rightarrow> q))
         else ''hd'') \<and>
      (sublist ''/play/'' (case v_url (vs ! k) of None \<Rightarrow> [] | Some u \<Rightarrow> u) \<longrightarrow>
         po_playId (a_playOptions ?a ! k) =
           last (str_split ''/play/'' (case v_url (vs ! k) of None \<Rightarrow> [] | Some u \<Rightarrow> u)) \<and>
         (\<exists>pre. (case v_url (vs ! k) of None \<Rightarrow> [] | Some u \<Rightarrow> u) =
            pre @ ''/play/'' @ po_playId (a_playOptions ?a ! k)) \<and>
         \<not> sublist ''/play/'' (po_playId (a_playOptions ?a ! k))) \<and>
      (\<not> sublist ''/play/'' (case v_url (vs ! k) of None \<Rightarrow> [] | Some u \<Rightarrow> u) \<longrightarrow>
         po_playId (a_playOptions ?a ! k) = i)"
  proof (intro allI impI)
    fix k
    assume "k < length vs"
    note n = convert_item_play_option_nth [OF r assms this]
    show "po_license (a_playOptions ?a ! k) = ''free'' \<and>
      po_quality (a_playOptions ?a ! k) =
        (if str_upper (case v_quality (vs ! k) of None \<Rightarrow> ''HD'' | Some q \<Rightarrow> q) \<in>
              set [''HD'', ''SD'', ''UHD'', ''FHD'']
         then str_lower (str_upper (case v_quality (vs ! k) of None \<Rightarrow> ''HD'' | Some q \<Rightarrow> q))
         else ''hd'') \<and>
      (sublist ''/play/'' (case v_url (vs ! k) of None \<Rightarrow> [] | Some u \<Rightarrow> u) \<longrightarrow>
         po_playId (a_playOptions ?a ! k) =
           last (str_split ''/play/'' (case v_url (vs ! k) of None \<Rightarrow> [] | Some u \<Rightarrow> u)) \<and>
         (\<exists>pre. (case v_url (vs ! k) of None \<Rightarrow> [] | Some u \<Rightarrow> u) =
            pre @ ''/play/'' @ po_playId (a_playOptions ?a ! k)) \<and>
         \<not> sublist ''/play/'' (po_playId (a_playOptions ?a ! k))) \<and>
      (\<not> sublist ''/play/'' (case v_url (vs ! k) of None \<Rightarrow> [] | Some u \<Rightarrow> u) \<longrightarrow>
         po_playId (a_playOptions ?a ! k) = i)"
      unfolding n
      by (intro conjI impI play_option_of_props(1) play_option_of_props(2)
          play_option_of_split play_option_of_props(3) play_option_of_props(4))
  qed
  show "\<exists>a. convert_item item t = Inr a \<and>
        (vs = [] \<longrightarrow>
           a_playOptions a = [\<lparr>po_license = ''free'', po_quality = ''hd'', po_playId = i\<rparr>]) \<and>
        (vs \<noteq> [] \<longrightarrow> length (a_playOptions a) = length vs) \<and>
        (\<forall>k<length vs.
           po_license (a_playOptions a ! k) = ''free'' \<and>
           po_quality (a_playOptions a ! k) =
             (if str_upper (case v_quality (vs ! k) of None \<Rightarrow> ''HD'' | Some q \<Rightarrow> q) \<in>
                   set [''HD'', ''SD'', ''UHD'', ''FHD'']
              then str_lower (str_upper (case v_quality (vs ! k) of None \<Rightarrow> ''HD'' | Some q \<Rightarrow> q))
              else ''hd'') \<and>
           (sublist ''/play/'' (case v_url (vs ! k) of None \<Rightarrow> [] | Some u \<Rightarrow> u) \<longrightarrow>
              po_playId (a_playOptions a ! k) =
                last (str_split ''/play/'' (case v_url (vs ! k) of None \<Rightarrow> [] | Some u \<Rightarrow> u)) \<and>
              (\<exists>pre. (case v_url (vs ! k) of None \<Rightarrow> [] | Some u \<Rightarrow> u) =
                 pre @ ''/play/'' @ po_playId (a_playOptions a ! k)) \<and>
              \<not> sublist ''/play/'' (po_playId (a_playOptions a ! k))) \<and>
           (\<not> sublist ''/play/'' (case v_url (vs ! k) of None \<Rightarrow> [] | Some u \<Rightarrow> u) \<longrightarrow>
              po_playId (a_playOptions a ! k) = i))"
    by (rule exI [of _ ?a]) (intro conjI r none len each)
next
  let ?a = "projr (convert_item_v2 item t)"
  have r: "convert_item_v2 item t = Inr ?a"
    by (rule convert_item_v2_returns [OF assms(1)])
  from convert_item_v2_play_id [OF r assms]
  obtain pid where p1: "a_playOptions ?a = [\<lparr>po_license = ''free'', po_quality = ''hd'', po_playId = pid\<rparr>]"
    and p2: "vs = [] \<longrightarrow> pid = i"
    and p3: "vs \<noteq> [] \<longrightarrow>
           ((\<exists>pre d rest. (case v_url (hd vs) of None \<Rightarrow> [] | Some u \<Rightarrow> u) =
                pre @ ''/play/'' @ d # rest \<and> is_digit d) \<longrightarrow>
              pid \<noteq> [] \<and> list_all is_digit pid \<and>
              (\<exists>pre rest. (case v_url (hd vs) of None \<Rightarrow> [] | Some u \<Rightarrow> u) =
                   pre @ ''/play/'' @ pid @ rest \<and>
                 (rest = [] \<or> \<not> is_digit (hd rest)) \<and>
                 \<not> (\<exists>pre' d rest'. pre @ ''/play/'' = pre' @ ''/play/'' @ d # rest' \<and>
                      is_digit d))) \<and>
           (\<not> (\<exists>pre d rest. (case v_url (hd vs) of None \<Rightarrow> [] | Some u \<Rightarrow> u) =
                pre @ ''/play/'' @ d # rest \<and> is_digit d) \<longrightarrow>
              pid = i)"
    by (elim exE conjE)
  show "\<exists>a pid. convert_item_v2 item t = Inr a \<and>
        a_playOptions a = [\<lparr>po_license = ''free'', po_quality = ''hd'', po_playId = pid\<rparr>] \<and>
        (vs = [] \<longrightarrow> pid = i) \<and>
        (vs \<noteq> [] \<longrightarrow>
           ((\<exists>pre d rest. (case v_url (hd vs) of None \<Rightarrow> [] | Some u \<Rightarrow> u) =
                pre @ ''/play/'' @ d # rest \<and> is_digit d) \<longrightarrow>
              pid \<noteq> [] \<and> list_all is_digit pid \<and>
              (\<exists>pre rest. (case v_url (hd vs) of None \<Rightarrow> [] | Some u \<Rightarrow> u) =
                   pre @ ''/play/'' @ pid @ rest \<and>
                 (rest = [] \<or> \<not> is_digit (hd rest)) \<and>
                 \<not> (\<exists>pre' d rest'. pre @ ''/play/'' = pre' @ ''/play/'' @ d # rest' \<and>
                      is_digit d))) \<and>
           (\<not> (\<exists>pre d rest. (case v_url (hd vs) of None \<Rightarrow> [] | Some u \<Rightarrow> u) =
                pre @ ''/play/'' @ d # rest \<and> is_digit d) \<longrightarrow>
              pid = i))"
    by (rule exI [of _ ?a], rule exI [of _ pid]) (intro conjI r p1 p2 p3)
qed


lemma item_A_videos:
  "(case i_content item_A of None \<Rightarrow> []
    | Some c \<Rightarrow> (case c_videos c of None \<Rightarrow> [] | Some vs \<Rightarrow> vs)) = videos_A"
  by (simp add: item_A_def)

theorem play_options_per_video_witness:
  "i_id item_A = Some ''abc123'' \<and>
   (case i_content item_A of None \<Rightarrow> []
    | Some c \<Rightarrow> (case c_videos c of None \<Rightarrow> [] | Some vs \<Rightarrow> vs)) = videos_A \<and>
   videos_A =
     [\<lparr>v_url = Some ''https://x/play/999'', v_quality = Some ''Sd''\<rparr>,
      \<lparr>v_url = Some ''https://x/stream/7'', v_quality = Some ''4K''\<rparr>] \<and>
   convert_item item_A ''movie'' = Inr (projr (convert_item item_A ''movie'')) \<and>
   length (a_playOptions (projr (convert_item item_A ''movie''))) = 2 \<and>
   a_playOptions (projr (convert_item item_A ''movie'')) =
     [\<lparr>po_license = ''free'', po_quality = ''sd'', po_playId = ''999''\<rparr>,
      \<lparr>po_license = ''free'', po_quality = ''hd'', po_playId = ''abc123''\<rparr>] \<and>
   sublist ''/play/'' ''https://x/play/999'' \<and>
   \<not> sublist ''/play/'' ''https://x/stream/7'' \<and>
   convert_item_v2 item_A ''movie'' = Inr (projr (convert_item_v2 item_A ''movie'')) \<and>
   a_playOptions (projr (convert_item_v2 item_A ''movie'')) =
     [\<lparr>po_license = ''free'', po_quality = ''hd'', po_playId = ''999''\<rparr>] \<and>
   (\<exists>pre d rest. ''https://x/play/999'' = pre @ ''/play/'' @ d # rest \<and> is_digit d) \<and>
   i_id item_V = Some ''abc123'' \<and>
   (case i_content item_V of None \<Rightarrow> []
    | Some c \<Rightarrow> (case c_videos c of None \<Rightarrow> [] | Some vs \<Rightarrow> vs)) = videos_V \<and>
   videos_V = [\<lparr>v_url = Some ''https://h/play/play/77'', v_quality = None\<rparr>] \<and>
   sublist ''/play/'' ''https://h/play/play/77'' \<and>
   str_split ''/play/'' ''https://h/play/play/77'' = [''https://h'', ''play/77''] \<and>
   convert_item item_V ''movie'' = Inr (projr (convert_item item_V ''movie'')) \<and>
   po_playId (a_playOptions (projr (convert_item item_V ''movie'')) ! 0) = ''play/77''"
proof -
  have iV: "i_id item_V = Some ''abc123''"
    by (simp add: item_V_def item_B_def)
  have vV: "(case i_content item_V of None \<Rightarrow> []
      | Some c \<Rightarrow> (case c_videos c of None \<Rightarrow> [] | Some vs \<Rightarrow> vs)) = videos_V"
    by (simp add: item_V_def)
  have rV: "convert_item item_V ''movie'' = Inr (projr (convert_item item_V ''movie''))"
    by (rule convert_item_returns [OF iV])
  have kV: "0 < length videos_V"
    by (simp add: videos_V_def)
  have uV: "(case v_url (videos_V ! 0) of None \<Rightarrow> [] | Some u \<Rightarrow> u) = ''https://h/play/play/77''"
    by (simp add: videos_V_def)
  have sV: "sublist ''/play/'' ''https://h/play/play/77''"
    by code_simp
  have spV: "str_split ''/play/'' ''https://h/play/play/77'' = [''https://h'', ''play/77'']"
    by code_simp
  from play_options_per_video [OF iV vV, of "''movie''", THEN conjunct1]
  obtain b where b: "convert_item item_V ''movie'' = Inr b"
    and eachV: "\<forall>k<length videos_V.
           po_license (a_playOptions b ! k) = ''free'' \<and>
           po_quality (a_playOptions b ! k) =
             (if str_upper (case v_quality (videos_V ! k) of None \<Rightarrow> ''HD'' | Some q \<Rightarrow> q) \<in>
                   set [''HD'', ''SD'', ''UHD'', ''FHD'']
              then str_lower
                (str_upper (case v_quality (videos_V ! k) of None \<Rightarrow> ''HD'' | Some q \<Rightarrow> q))
              else ''hd'') \<and>
           (sublist ''/play/'' (case v_url (videos_V ! k) of None \<Rightarrow> [] | Some u \<Rightarrow> u) \<longrightarrow>
              po_playId (a_playOptions b ! k) =
                last (str_split ''/play/''
                  (case v_url (videos_V ! k) of None \<Rightarrow> [] | Some u \<Rightarrow> u)) \<and>
              (\<exists>pre. (case v_url (videos_V ! k) of None \<Rightarrow> [] | Some u \<Rightarrow> u) =
                 pre @ ''/play/'' @ po_playId (a_playOptions b ! k)) \<and>
              \<not> sublist ''/play/'' (po_playId (a_playOptions b ! k))) \<and>
           (\<not> sublist ''/play/'' (case v_url (videos_V ! k) of None \<Rightarrow> [] | Some u \<Rightarrow> u) \<longrightarrow>
              po_playId (a_playOptions b ! k) = ''abc123'')"
    by (elim exE conjE)
  have bV: "b = projr (convert_item item_V ''movie'')"
    using b by simp
  note e0 = eachV [THEN spec, of 0, THEN mp, OF kV]
  note e1 = e0 [THEN conjunct2, THEN conjunct2, THEN conjunct1, unfolded uV, THEN mp, OF sV,
      THEN conjunct1, unfolded spV bV]
  have pV: "po_playId (a_playOptions (projr (convert_item item_V ''movie'')) ! 0) = ''play/77''"
    using e1 by simp
  note th = play_options_per_video [OF item_A_id item_A_videos, of "''movie''"]
  from th [THEN conjunct1]
  obtain a where a: "convert_item item_A ''movie'' = Inr a"
    and len: "videos_A \<noteq> [] \<longrightarrow> length (a_playOptions a) = length videos_A"
    by (elim exE conjE)
  have ne: "videos_A \<noteq> []" and l2: "length videos_A = 2"
    by (simp_all add: videos_A_def)
  have "a = projr (convert_item item_A ''movie'')"
    using a by simp
  then have l: "length (a_playOptions (projr (convert_item item_A ''movie''))) = 2"
    using len ne l2 by simp
  have p1: "a_playOptions (projr (convert_item item_A ''movie'')) =
     [\<lparr>po_license = ''free'', po_quality = ''sd'', po_playId = ''999''\<rparr>,
      \<lparr>po_license = ''free'', po_quality = ''hd'', po_playId = ''abc123''\<rparr>]"
    by code_simp
  have p2: "a_playOptions (projr (convert_item_v2 item_A ''movie'')) =
     [\<lparr>po_license = ''free'', po_quality = ''hd'', po_playId = ''999''\<rparr>]"
    by code_simp
  have s1: "sublist ''/play/'' ''https://x/play/999''"
    by code_simp
  have s2: "\<not> sublist ''/play/'' ''https://x/stream/7''"
    by code_simp
  have "''https://x/play/999'' = ''https://x'' @ ''/play/'' @ CHR ''9'' # ''99'' \<and>
      is_digit CHR ''9''"
    by (simp add: is_digit_def)
  then have m: "\<exists>pre d rest. ''https://x/play/999'' = pre @ ''/play/'' @ d # rest \<and> is_digit d"
    by (intro exI)
  show ?thesis
    by (intro conjI item_A_id item_A_videos videos_A_def convert_item_returns [OF item_A_id]
        convert_item_v2_returns [OF item_A_id] l p1 p2 s1 s2 m iV vV videos_V_def sV spV rV pV)
qed


end
